theory Spec2Isabelle
  imports Complex_Main "HOL-Library.Monad_Syntax" "HOL-Library.Log_Nat"
begin

text \<open>
  A model of VoxAI Studio: the credit ledger and the routes of \<^verbatim>\<open>server.ts\<close>, and on the
  client the audio container encoder \<^verbatim>\<open>createWavUrl\<close>, \<^verbatim>\<open>generateSpeech\<close> and
  \<^verbatim>\<open>handleCancel\<close>. The definitions come first, in the order of the source; the
  statements about them follow.
\<close>

section \<open>Numbers of the credit ledger\<close>

text \<open>
  The ledger of \<^verbatim>\<open>server.ts\<close> keeps \<^verbatim>\<open>credits: number\<close>, an IEEE double, and the
  privileged accounts hold \<^verbatim>\<open>Infinity\<close>. A number is \<open>NaN\<close>, one of the two infinities, or
  a finite value, given by the real number the double stands for (the two zeros are one
  value: no operation of the program tells them apart). The doubles are the reals that
  \<open>round_double\<close> below leaves as they are. The amount of a deduction is
  \<^verbatim>\<open>req.body.amount\<close>; both operators the handler applies to it (\<^verbatim>\<open><\<close> against a number,
  and \<^verbatim>\<open>-=\<close>) convert it with ToNumber first, so the amount is modelled by the number
  ToNumber yields: a missing or non-numeric amount is \<open>NaN\<close>, the JSON literal
  \<^verbatim>\<open>-1e999\<close> is \<open>NegInf\<close>.
\<close>

datatype jsnum = NaN | NegInf | Fin real | PosInf

text \<open>\<^verbatim>\<open>a < b\<close> on numbers: false as soon as one side is NaN.\<close>

fun js_lt :: "jsnum \<Rightarrow> jsnum \<Rightarrow> bool" where
  "js_lt (Fin a) (Fin b) = (a < b)"
| "js_lt (Fin a) PosInf = True"
| "js_lt NegInf (Fin b) = True"
| "js_lt NegInf PosInf = True"
| "js_lt _ _ = False"

text \<open>
  The result of an arithmetic operator is the exact result rounded to the nearest double,
  a tie going to the even significand. A finite double is a multiple of \<open>2 ^ -1074\<close> whose
  significand has at most 53 bits. \<open>nearest\<close> rounds a magnitude that is counted in units
  of \<open>2 ^ -1074\<close>: of its integer part, the \<open>s\<close> bits after the leading 53 are rounded
  away. A result of magnitude \<open>2 ^ 1024\<close> or more is an infinity.
\<close>

definition round_half_even :: "real \<Rightarrow> int" where
  "round_half_even t =
     (let f = \<lfloor>t\<rfloor>; d = t - of_int f
      in if d < 1 / 2 then f
         else if 1 / 2 < d then f + 1
         else if even f then f else f + 1)"

definition nearest :: "real \<Rightarrow> real" where
  "nearest w =
     (let s = nat (bitlen \<lfloor>w\<rfloor> - 53)
      in of_int (round_half_even (w / 2 ^ s)) * 2 ^ s)"

definition round_double :: "real \<Rightarrow> jsnum" where
  "round_double z =
     (let y = nearest (\<bar>z\<bar> * 2 ^ 1074) / 2 ^ 1074
      in if 2 ^ 1024 \<le> y then (if 0 < z then PosInf else NegInf)
         else Fin (if 0 \<le> z then y else - y))"

text \<open>\<^verbatim>\<open>a - b\<close> on numbers.\<close>

fun js_sub :: "jsnum \<Rightarrow> jsnum \<Rightarrow> jsnum" where
  "js_sub NaN _ = NaN"
| "js_sub _ NaN = NaN"
| "js_sub PosInf PosInf = NaN"
| "js_sub NegInf NegInf = NaN"
| "js_sub PosInf _ = PosInf"
| "js_sub NegInf _ = NegInf"
| "js_sub (Fin a) PosInf = NegInf"
| "js_sub (Fin a) NegInf = PosInf"
| "js_sub (Fin a) (Fin b) = round_double (a - b)"

section \<open>The server: the in-memory user table and its routes\<close>

text \<open>
  \<^verbatim>\<open>const usersDb: Record<string, { email, credits, isPremium }> = {}\<close>: a table from the
  e-mail to the stored object. The handlers mutate the stored object in place; the model
  returns the updated table.
\<close>

record user_entry =
  email :: string
  credits :: jsnum
  isPremium :: bool

type_synonym users_db = "string \<rightharpoonup> user_entry"

text \<open>
  The table is a plain object literal, so \<^verbatim>\<open>usersDb[key]\<close> finds more than the entries
  the program has stored: after the own properties of the table, the properties of
  \<^verbatim>\<open>Object.prototype\<close> are looked up. These are its property names in Node; the value
  is a function for each, and the prototype object itself for \<^verbatim>\<open>__proto__\<close>, all of them
  truthy.
\<close>

definition prototype_keys :: "string list" where
  "prototype_keys =
     [''constructor'', ''__defineGetter__'', ''__defineSetter__'', ''hasOwnProperty'',
      ''__lookupGetter__'', ''__lookupSetter__'', ''isPrototypeOf'', ''propertyIsEnumerable'',
      ''toString'', ''valueOf'', ''__proto__'', ''toLocaleString'']"

text \<open>
  What \<^verbatim>\<open>usersDb[key]\<close> evaluates to: \<open>None\<close> is \<^verbatim>\<open>undefined\<close>, \<open>Own u\<close> an entry of the
  table, \<open>Inherited\<close> the value \<^verbatim>\<open>Object.prototype\<close> has under that name.
\<close>

datatype stored = Own user_entry | Inherited

definition lookup_user :: "users_db \<Rightarrow> string \<Rightarrow> stored option" where
  "lookup_user usersDb key =
     (case usersDb key of
        Some u \<Rightarrow> Some (Own u)
      | None \<Rightarrow> if key \<in> set prototype_keys then Some Inherited else None)"

definition SPECIAL_EMAILS :: "string list" where
  "SPECIAL_EMAILS =
     [''amliyarsachin248@gmail.com'', ''amaliyarmanu5@gmail.com'',
      ''sachinamliyar15@gmail.com'', ''robotlinkan@gmail.com'']"

text \<open>
  The block \<^verbatim>\<open>if (!usersDb[email]) { ... }\<close>, written out twice in the source (in the
  OAuth callback and in \<^verbatim>\<open>GET /api/user\<close>): an e-mail under which nothing is found gets
  an entry, unlimited and premium when it is on the list, 20000 credits otherwise. The
  second component is \<^verbatim>\<open>usersDb[email]\<close> as it stands after the block.
\<close>

definition initialize_user :: "users_db \<Rightarrow> string \<Rightarrow> users_db \<times> stored" where
  "initialize_user usersDb em =
     (case lookup_user usersDb em of
        Some found \<Rightarrow> (usersDb, found)
      | None \<Rightarrow>
          (let isSpecial = (em \<in> set SPECIAL_EMAILS);
               u = \<lparr>email = em,
                    credits = (if isSpecial then PosInf else Fin 20000),
                    isPremium = isSpecial\<rparr>
           in (usersDb(em \<mapsto> u), Own u)))"

text \<open>
  The cookies of a request, each a string (the JSON cookies of \<^verbatim>\<open>cookie-parser\<close>, whose
  value is not a string, are not modelled). A cookie that is absent and a cookie whose
  value is the empty string are both falsy in \<^verbatim>\<open>if (mockEmail)\<close> and \<^verbatim>\<open>if (!token)\<close>: only
  a non-empty value \<open>c # cs\<close> counts.
\<close>

record cookies =
  mock_session :: "string option"
  session :: "string option"

text \<open>
  What a handler sends: \<^verbatim>\<open>res.json(user)\<close> for an entry of the table, \<^verbatim>\<open>res.json(user)\<close>
  for the value inherited under a name (status 200; the body holds no profile), or
  \<^verbatim>\<open>res.status(n).json({ error })\<close>.
\<close>

datatype response = Reply_user user_entry | Reply_inherited string | Reply_error nat string

definition json_reply :: "string \<Rightarrow> stored \<Rightarrow> response" where
  "json_reply key found = (case found of Own u \<Rightarrow> Reply_user u | Inherited \<Rightarrow> Reply_inherited key)"

text \<open>
  \<^verbatim>\<open>jwt.verify(token, JWT_SECRET)\<close> is the library's: it is a parameter \<open>verify\<close> that
  gives the e-mail of the decoded payload, or \<open>None\<close> where the call throws.
\<close>

type_synonym jwt_verify = "string \<Rightarrow> string option"

text \<open>
  How \<^verbatim>\<open>POST /api/user/deduct\<close> finds the e-mail of a request (lines 182 to 194): the
  preview cookie first, the signed token otherwise. \<^verbatim>\<open>GET /api/user\<close> reads the same
  cookies in the same order.
\<close>

definition request_email :: "jwt_verify \<Rightarrow> cookies \<Rightarrow> response + string" where
  "request_email verify req =
     (case mock_session req of
        Some (c # cs) \<Rightarrow> Inr (c # cs)
      | _ \<Rightarrow>
          (case session req of
             Some (c # cs) \<Rightarrow>
               (case verify (c # cs) of
                  None \<Rightarrow> Inl (Reply_error 401 ''Invalid token'')
                | Some decoded_email \<Rightarrow> Inr decoded_email)
           | _ \<Rightarrow> Inl (Reply_error 401 ''Unauthorized'')))"

text \<open>\<^verbatim>\<open>app.get("/api/user", ...)\<close>\<close>

definition get_user :: "jwt_verify \<Rightarrow> users_db \<Rightarrow> cookies \<Rightarrow> users_db \<times> response" where
  "get_user verify usersDb req =
     (case mock_session req of
        Some (c # cs) \<Rightarrow>
          (let (usersDb', found) = initialize_user usersDb (c # cs)
           in (usersDb', json_reply (c # cs) found))
      | _ \<Rightarrow>
          (case request_email verify req of
             Inl r \<Rightarrow> (usersDb, r)
           | Inr decoded_email \<Rightarrow>
               (case lookup_user usersDb decoded_email of
                  None \<Rightarrow> (usersDb, Reply_error 404 ''User not found'')
                | Some found \<Rightarrow> (usersDb, json_reply decoded_email found))))"

text \<open>
  \<^verbatim>\<open>app.post("/api/user/deduct", ...)\<close>. The handler has no \<^verbatim>\<open>await\<close>: it runs to its end
  before the next request is taken up, so requests that arrive together are served one
  after the other, in some order. \<open>amount\<close> is what \<^verbatim>\<open>req.body.amount\<close> is as a number.

  When \<^verbatim>\<open>user\<close> is an inherited value, \<^verbatim>\<open>user.credits\<close> is \<^verbatim>\<open>undefined\<close>, or NaN after an
  earlier such request: it is not Infinity and no comparison with it holds, so line 202
  stores NaN, on the inherited value, and line 204 answers. No entry of the table
  changes.
\<close>

definition post_deduct :: "jwt_verify \<Rightarrow> users_db \<Rightarrow> cookies \<Rightarrow> jsnum \<Rightarrow> users_db \<times> response" where
  "post_deduct verify usersDb req amount =
     (case request_email verify req of
        Inl r \<Rightarrow> (usersDb, r)
      | Inr em \<Rightarrow>
          (case lookup_user usersDb em of
             None \<Rightarrow> (usersDb, Reply_error 404 ''User not found'')
           | Some Inherited \<Rightarrow> (usersDb, Reply_inherited em)
           | Some (Own u) \<Rightarrow>
               if credits u \<noteq> PosInf then
                 (if js_lt (credits u) amount
                  then (usersDb, Reply_error 400 ''Insufficient credits'')
                  else (let u' = u\<lparr>credits := js_sub (credits u) amount\<rparr>
                        in (usersDb(em \<mapsto> u'), Reply_user u')))
               else (usersDb, Reply_user u)))"

text \<open>
  The OAuth callback \<^verbatim>\<open>/auth/callback\<close>. The exchange with the identity provider is
  outside the program: \<open>id_email\<close> is the e-mail decoded from the provider's id token, or
  \<open>None\<close> where a step before it throws (no client id, no id token), which the handler
  answers with status 500. \<^verbatim>\<open>jwt.sign\<close> is the parameter \<open>sign\<close>.
\<close>

datatype callback_reply = Session_cookie string | Authentication_failed

definition auth_callback ::
  "(string \<Rightarrow> string) \<Rightarrow> users_db \<Rightarrow> string option \<Rightarrow> users_db \<times> callback_reply" where
  "auth_callback sign usersDb id_email =
     (case id_email of
        None \<Rightarrow> (usersDb, Authentication_failed)
      | Some em \<Rightarrow> (fst (initialize_user usersDb em), Session_cookie (sign em)))"

text \<open>A list of deduction requests, served in order.\<close>

fun deduct_all :: "jwt_verify \<Rightarrow> users_db \<Rightarrow> (cookies \<times> jsnum) list \<Rightarrow> users_db" where
  "deduct_all verify usersDb [] = usersDb"
| "deduct_all verify usersDb ((req, amount) # rest) =
     deduct_all verify (fst (post_deduct verify usersDb req amount)) rest"

section \<open>The client: the audio container encoder\<close>

text \<open>
  What a \<^verbatim>\<open>catch\<close> clause of the client inspects of a thrown value: its \<^verbatim>\<open>name\<close> and its
  \<^verbatim>\<open>message\<close>, which may be undefined.
\<close>

record js_error =
  name :: string
  message :: "string option"

text \<open>
  \<^verbatim>\<open>atob\<close> is the browser's. It is modelled as the HTML standard defines it (forgiving-base64
  decode): ASCII whitespace is dropped; one or two closing \<^verbatim>\<open>=\<close> are dropped when the length
  is a multiple of four; a length of 1 modulo 4, or a character outside the base64
  alphabet, throws \<^verbatim>\<open>InvalidCharacterError\<close> (\<open>None\<close>); otherwise every character gives six
  bits and every full group of eight bits one character code of the result.
\<close>

definition ascii_whitespace :: "char \<Rightarrow> bool" where
  "ascii_whitespace c = (of_char c \<in> {9, 10, 12, 13, 32 :: nat})"

definition base64_index :: "char \<Rightarrow> nat option" where
  "base64_index c =
     (let n = (of_char c :: nat)
      in if 65 \<le> n \<and> n \<le> 90 then Some (n - 65)
         else if 97 \<le> n \<and> n \<le> 122 then Some (n - 71)
         else if 48 \<le> n \<and> n \<le> 57 then Some (n + 4)
         else if n = 43 then Some 62
         else if n = 47 then Some 63
         else None)"

definition strip_padding :: "string \<Rightarrow> string" where
  "strip_padding d =
     (if length d mod 4 = 0 \<and> d \<noteq> [] \<and> last d = CHR ''=''
      then (if butlast d \<noteq> [] \<and> last (butlast d) = CHR ''='' then butlast (butlast d)
            else butlast d)
      else d)"

fun decode_sextets :: "nat list \<Rightarrow> nat list" where
  "decode_sextets (a # b # c # d # rest) =
     (a * 4 + b div 16) # ((b mod 16) * 16 + c div 4) # ((c mod 4) * 64 + d) # decode_sextets rest"
| "decode_sextets [a, b, c] = [a * 4 + b div 16, (b mod 16) * 16 + c div 4]"
| "decode_sextets [a, b] = [a * 4 + b div 16]"
| "decode_sextets _ = []"

definition atob :: "string \<Rightarrow> nat list option" where
  "atob data =
     (let d = strip_padding (filter (\<lambda>c. \<not> ascii_whitespace c) data)
      in if length d mod 4 = 1 then None
         else map_option decode_sextets (those (map base64_index d)))"

text \<open>
  An \<^verbatim>\<open>ArrayBuffer\<close> is a list of bytes, each a number below 256. A \<^verbatim>\<open>DataView\<close> setter
  stores its value modulo the width of the field, the low byte first when \<^verbatim>\<open>littleEndian\<close> is
  set, and throws \<^verbatim>\<open>RangeError\<close> (\<open>None\<close>) when
  the field does not lie inside the buffer. Integer values only: a sample rate with a
  fraction is not modelled.
\<close>

definition ToUint8 :: "int \<Rightarrow> nat" where
  "ToUint8 x = nat (x mod 2 ^ 8)"

definition ToUint16 :: "int \<Rightarrow> nat" where
  "ToUint16 x = nat (x mod 2 ^ 16)"

definition ToUint32 :: "int \<Rightarrow> nat" where
  "ToUint32 x = nat (x mod 2 ^ 32)"

definition overwrite :: "nat list \<Rightarrow> nat \<Rightarrow> nat list \<Rightarrow> nat list" where
  "overwrite buf off bs = take off buf @ bs @ drop (off + length bs) buf"

definition write_at :: "nat list \<Rightarrow> nat \<Rightarrow> nat list \<Rightarrow> nat list option" where
  "write_at buf off bs =
     (if off + length bs \<le> length buf then Some (overwrite buf off bs) else None)"

definition byte_order :: "bool \<Rightarrow> nat list \<Rightarrow> nat list" where
  "byte_order littleEndian bs = (if littleEndian then bs else rev bs)"

definition setUint8 :: "nat list \<Rightarrow> nat \<Rightarrow> int \<Rightarrow> nat list option" where
  "setUint8 view off v = write_at view off [ToUint8 v]"

definition uint16_bytes :: "nat \<Rightarrow> nat list" where
  "uint16_bytes u = [u mod 256, u div 256 mod 256]"

definition uint32_bytes :: "nat \<Rightarrow> nat list" where
  "uint32_bytes u = [u mod 256, u div 256 mod 256, u div 65536 mod 256, u div 16777216 mod 256]"

definition setUint16 :: "nat list \<Rightarrow> nat \<Rightarrow> int \<Rightarrow> bool \<Rightarrow> nat list option" where
  "setUint16 view off v littleEndian =
     write_at view off (byte_order littleEndian (uint16_bytes (ToUint16 v)))"

definition setUint32 :: "nat list \<Rightarrow> nat \<Rightarrow> int \<Rightarrow> bool \<Rightarrow> nat list option" where
  "setUint32 view off v littleEndian =
     write_at view off (byte_order littleEndian (uint32_bytes (ToUint32 v)))"

text \<open>The getters of a \<^verbatim>\<open>DataView\<close>, to read a header back.\<close>

definition getUint16 :: "nat list \<Rightarrow> nat \<Rightarrow> bool \<Rightarrow> nat option" where
  "getUint16 view off littleEndian =
     (if off + 2 \<le> length view
      then (case byte_order littleEndian (take 2 (drop off view)) of
              [b0, b1] \<Rightarrow> Some (b0 + 256 * b1)
            | _ \<Rightarrow> None)
      else None)"

definition getUint32 :: "nat list \<Rightarrow> nat \<Rightarrow> bool \<Rightarrow> nat option" where
  "getUint32 view off littleEndian =
     (if off + 4 \<le> length view
      then (case byte_order littleEndian (take 4 (drop off view)) of
              [b0, b1, b2, b3] \<Rightarrow> Some (b0 + 256 * b1 + 65536 * b2 + 16777216 * b3)
            | _ \<Rightarrow> None)
      else None)"

text \<open>The character codes of a string literal of the source.\<close>

definition char_codes :: "string \<Rightarrow> nat list" where
  "char_codes s = map of_char s"

text \<open>The local function \<^verbatim>\<open>writeString\<close> of \<^verbatim>\<open>createWavUrl\<close>: one \<^verbatim>\<open>setUint8\<close> per character.\<close>

fun writeString :: "nat list \<Rightarrow> nat \<Rightarrow> nat list \<Rightarrow> nat list option" where
  "writeString view off [] = Some view"
| "writeString view off (c # cs) =
     (case setUint8 view off (int c) of
        None \<Rightarrow> None
      | Some view' \<Rightarrow> writeString view' (off + 1) cs)"

text \<open>
  The two exceptions \<^verbatim>\<open>createWavUrl\<close> can meet. Their messages are worded by the browser;
  the model fixes one wording for each. The \<^verbatim>\<open>catch\<close> of \<^verbatim>\<open>generateSpeech\<close> only looks for
  \<^verbatim>\<open>abort\<close>, \<^verbatim>\<open>429\<close>, \<^verbatim>\<open>RESOURCE_EXHAUSTED\<close> and \<^verbatim>\<open>quota\<close> in them.
\<close>

definition InvalidCharacterError :: js_error where
  "InvalidCharacterError =
     \<lparr>name = ''InvalidCharacterError'',
      message = Some ''The string to be decoded is not correctly encoded.''\<rparr>"

definition RangeError :: js_error where
  "RangeError = \<lparr>name = ''RangeError'', message = Some ''Offset is outside the bounds of the DataView''\<rparr>"

text \<open>
  \<^verbatim>\<open>createWavUrl(base64, sampleRate = 24000)\<close>. The result stands for the object URL: it is
  the content of the blob the URL names. \<^verbatim>\<open>pcmData.set(bytes)\<close> copies the payload to
  offset 44.
\<close>

definition createWavUrl :: "string \<Rightarrow> int \<Rightarrow> js_error + nat list" where
  "createWavUrl base64 sampleRate =
     (case atob base64 of
        None \<Rightarrow> Inl InvalidCharacterError
      | Some binaryString \<Rightarrow>
          (let bytes = map (\<lambda>c. c mod 256) binaryString;
               buffer = replicate (44 + length bytes) 0
           in case
                do {
                  view \<leftarrow> writeString buffer 0 (char_codes ''RIFF'');
                  view \<leftarrow> setUint32 view 4 (36 + int (length bytes)) True;
                  view \<leftarrow> writeString view 8 (char_codes ''WAVE'');
                  view \<leftarrow> writeString view 12 (char_codes ''fmt '');
                  view \<leftarrow> setUint32 view 16 16 True;
                  view \<leftarrow> setUint16 view 20 1 True;
                  view \<leftarrow> setUint16 view 22 1 True;
                  view \<leftarrow> setUint32 view 24 sampleRate True;
                  view \<leftarrow> setUint32 view 28 (sampleRate * 2) True;
                  view \<leftarrow> setUint16 view 32 2 True;
                  view \<leftarrow> setUint16 view 34 16 True;
                  view \<leftarrow> writeString view 36 (char_codes ''data'');
                  view \<leftarrow> setUint32 view 40 (int (length bytes)) True;
                  write_at view 44 bytes
                }
              of
                None \<Rightarrow> Inl RangeError
              | Some blob \<Rightarrow> Inr blob))"

section \<open>The client: one generation run\<close>

text \<open>
  A string of the client is the list of its UTF-16 code units, which is what \<^verbatim>\<open>.length\<close>
  counts. \<^verbatim>\<open>trim\<close> removes the white space and the line terminators of ECMAScript at both
  ends.
\<close>

type_synonym jsstring = "nat list"

definition js_whitespace :: "nat \<Rightarrow> bool" where
  "js_whitespace c =
     (c \<in> {9, 10, 11, 12, 13, 32, 160, 5760, 8232, 8233, 8239, 8287, 12288, 65279}
      \<or> (8192 \<le> c \<and> c \<le> 8202))"

definition trim :: "jsstring \<Rightarrow> jsstring" where
  "trim s = rev (dropWhile js_whitespace (rev (dropWhile js_whitespace s)))"

text \<open>\<^verbatim>\<open>s.includes(pattern)\<close>: the pattern stands somewhere in \<open>s\<close>, case-sensitively.\<close>

fun starts_with :: "string \<Rightarrow> string \<Rightarrow> bool" where
  "starts_with s [] = True"
| "starts_with [] (p # ps) = False"
| "starts_with (c # cs) (p # ps) = (c = p \<and> starts_with cs ps)"

fun js_includes :: "string \<Rightarrow> string \<Rightarrow> bool" where
  "js_includes [] pattern = (pattern = [])"
| "js_includes (c # cs) pattern = (starts_with (c # cs) pattern \<or> js_includes cs pattern)"

datatype mode = Tts | Voice_changer | Dubbing

record uploaded =
  upload_base64 :: string
  upload_mimeType :: string

record voice =
  voice_id :: string
  voice_name :: string

record history_item =
  item_id :: string
  item_text :: jsstring
  item_voice :: string
  item_audioUrl :: "nat list"
  item_timestamp :: nat

text \<open>
  The state \<^verbatim>\<open>user\<close>: \<^verbatim>\<open>null\<close>, the profile the server sent, or, after
  \<^verbatim>\<open>setUser(data)\<close> on a refused deduction, the body \<^verbatim>\<open>{ error }\<close>, which has no credits,
  or the body \<^verbatim>\<open>{ credits: null }\<close>. \<open>user_credits\<close> is \<^verbatim>\<open>user.credits\<close> as the two tests of
  \<^verbatim>\<open>generateSpeech\<close> see it (\<^verbatim>\<open>!== Infinity\<close>, and \<^verbatim>\<open><\<close> after ToNumber): undefined is
  \<open>NaN\<close>. JSON has no Infinity and no NaN: \<^verbatim>\<open>res.json\<close> sends them as \<^verbatim>\<open>null\<close>, which both
  tests see as 0.
\<close>

datatype client_user = Signed_out | Profile user_entry | Error_body string | Null_credits

fun user_credits :: "client_user \<Rightarrow> jsnum" where
  "user_credits (Profile u) = credits u"
| "user_credits Null_credits = Fin 0"
| "user_credits _ = NaN"

fun json_number :: "jsnum \<Rightarrow> jsnum" where
  "json_number (Fin x) = Fin x"
| "json_number _ = Fin 0"

text \<open>
  \<^verbatim>\<open>res.json()\<close> on the client: the body of the answer, parsed; \<open>None\<close> where the promise
  rejects. An inherited value that is a function has no JSON text, so the body is empty
  and cannot be parsed; the prototype object, on which the handler has just stored
  \<^verbatim>\<open>credits\<close> as NaN, is sent as \<^verbatim>\<open>{"credits":null}\<close>.
\<close>

fun from_json :: "response \<Rightarrow> client_user option" where
  "from_json (Reply_user u) = Some (Profile (u\<lparr>credits := json_number (credits u)\<rparr>))"
| "from_json (Reply_error status msg) = Some (Error_body msg)"
| "from_json (Reply_inherited key) = (if key = ''__proto__'' then Some Null_credits else None)"

text \<open>The messages \<^verbatim>\<open>setError\<close> is called with, one constructor for each call in the source.\<close>

datatype ui_error =
    Upload_audio_first
  | Process_audio_failed "string option"
  | Text_is_empty
  | Text_exceeds_limit nat
  | Insufficient_credits nat jsnum
  | Quota_exceeded
  | Error_message string
  | Connection_failed

text \<open>
  The state of the component that a run reads or writes. \<open>abortController\<close> is
  \<^verbatim>\<open>abortControllerRef.current\<close>: \<open>None\<close> is \<^verbatim>\<open>null\<close>, \<open>Some ()\<close> a controller, whose signal
  has not fired (\<^verbatim>\<open>handleCancel\<close> drops the reference as it fires the signal). An audio
  URL is the content of its blob.
\<close>

record client =
  user :: client_user
  text_input :: jsstring
  mode :: mode
  uploadedAudio :: "uploaded option"
  targetLanguage :: string
  selectedVoice :: voice
  isGenerating :: bool
  loadingStatus :: "string option"
  error :: "ui_error option"
  showMonetization :: bool
  audioUrl :: "nat list option"
  history :: "history_item list"
  abortController :: "unit option"

text \<open>
  What the world outside does during one run: the first model call throws or gives a
  response whose \<^verbatim>\<open>.text\<close> may be undefined; the user may press the cancel button while
  that call is outstanding; the synthesis call rejects, or resolves with its
  \<^verbatim>\<open>inlineData.data\<close> (which may be undefined); the user may press the cancel button
  while the synthesis call is outstanding, that is before it settles. \<^verbatim>\<open>Math.random\<close> and
  \<^verbatim>\<open>Date.now\<close> give the identifier and the time of a history item.
\<close>

datatype synthesis_outcome = Rejects js_error | Resolves "string option"

record env =
  transcription :: "js_error + jsstring option"
  cancel_while_transcribing :: bool
  synthesis :: synthesis_outcome
  cancel_while_synthesizing :: bool
  random_id :: string
  now :: nat

text \<open>The calls a run makes to the outside, in order.\<close>

datatype call =
    Login_popup
  | Transcribe mode string uploaded
  | Synthesize jsstring string
  | Deduct nat

definition MAX_CHARS :: nat where
  "MAX_CHARS = 20000"

text \<open>
  \<^verbatim>\<open>handleCancel\<close>, the handler of the cancel button. With a controller in
  \<^verbatim>\<open>abortControllerRef.current\<close> it calls \<^verbatim>\<open>abort()\<close> on it, drops the reference and clears
  the loading state; with none it does nothing. The second component tells whether
  \<^verbatim>\<open>abort()\<close> was called: the signal of that controller then fires its \<^verbatim>\<open>abort\<close> event.
\<close>

definition handleCancel :: "client \<Rightarrow> client \<times> bool" where
  "handleCancel c =
     (case abortController c of
        None \<Rightarrow> (c, False)
      | Some controller \<Rightarrow>
          (c\<lparr>abortController := None, isGenerating := False, loadingStatus := None\<rparr>, True))"

text \<open>
  Lines 459 to 461 of \<^verbatim>\<open>generateSpeech\<close>, and what the cancel button does while the
  call of line 468 is outstanding: the state when that call settles. Nothing listens to
  an \<^verbatim>\<open>abort\<close> event there: the call of line 468 is awaited alone.
\<close>

definition transcribing :: "env \<Rightarrow> client \<Rightarrow> client" where
  "transcribing e c =
     (let c1 = c\<lparr>isGenerating := True,
                  loadingStatus := Some (if mode c = Dubbing then ''Translating audio...''
                                         else ''Analyzing audio...''),
                  error := None\<rparr>
      in if cancel_while_transcribing e then fst (handleCancel c1) else c1)"

text \<open>
  Lines 454 to 490, for the modes with an upload: the call that transcribes or
  translates. \<open>Inl\<close> is a \<^verbatim>\<open>return\<close>; \<open>Inr\<close> carries \<^verbatim>\<open>processingText\<close> on.
\<close>

definition resolve_text ::
  "env \<Rightarrow> client \<Rightarrow> (client \<times> call list) + (client \<times> call list \<times> jsstring)" where
  "resolve_text e c =
     (case uploadedAudio c of
        None \<Rightarrow> Inl (c\<lparr>error := Some Upload_audio_first\<rparr>, [])
      | Some audio \<Rightarrow>
          (let calls = [Transcribe (mode c) (targetLanguage c) audio];
               c2 = transcribing e c
           in case transcription e of
                Inl err \<Rightarrow>
                  Inl (c2\<lparr>error := Some (Process_audio_failed (message err)),
                          isGenerating := False, loadingStatus := None\<rparr>, calls)
              | Inr response_text \<Rightarrow>
                  (let processingText = (case response_text of None \<Rightarrow> [] | Some t \<Rightarrow> t)
                   in if trim processingText = [] then
                        Inl (c2\<lparr>error := Some (Process_audio_failed
                                                  (Some ''Could not extract speech from audio.'')),
                                isGenerating := False, loadingStatus := None\<rparr>, calls)
                      else Inr (c2\<lparr>text_input := processingText\<rparr>, calls, processingText))))"

text \<open>The \<^verbatim>\<open>catch\<close> and the \<^verbatim>\<open>finally\<close> of the synthesis step (lines 586 to 601).\<close>

definition catch_generation :: "js_error \<Rightarrow> client \<Rightarrow> client" where
  "catch_generation err c =
     (if name err = ''AbortError''
         \<or> (case message err of None \<Rightarrow> False | Some m \<Rightarrow> js_includes m ''abort'')
      then c
      else if (case message err of
                 None \<Rightarrow> False
               | Some m \<Rightarrow> m \<noteq> [] \<and> (js_includes m ''429'' \<or> js_includes m ''RESOURCE_EXHAUSTED''
                                       \<or> js_includes m ''quota''))
      then c\<lparr>error := Some Quota_exceeded\<rparr>
      else c\<lparr>error := Some (case message err of
                               Some (x # xs) \<Rightarrow> Error_message (x # xs)
                             | _ \<Rightarrow> Connection_failed)\<rparr>)"

definition finally_generation :: "client \<Rightarrow> client" where
  "finally_generation c = c\<lparr>isGenerating := False, loadingStatus := None, abortController := None\<rparr>"

text \<open>
  Lines 520 to 601: the synthesis call raced against the \<^verbatim>\<open>abort\<close> event of the
  controller in \<^verbatim>\<open>abortControllerRef.current\<close>, then the deduction request, the
  container, the history item. When the cancel button is pressed while the call is
  outstanding, \<^verbatim>\<open>handleCancel\<close> runs; if it has called \<^verbatim>\<open>abort()\<close>, the listener of line 545
  rejects the race with \<^verbatim>\<open>new Error('AbortError')\<close>, whose name is \<^verbatim>\<open>Error\<close>, and the answer
  of the call is never looked at. Otherwise the race settles as the call does.
\<close>

definition abort_rejection :: js_error where
  "abort_rejection = \<lparr>name = ''Error'', message = Some ''AbortError''\<rparr>"

definition empty_response :: js_error where
  "empty_response =
     \<lparr>name = ''Error'',
      message = Some ''The AI model returned an empty response. Please try again with shorter text or a different voice.''\<rparr>"

definition new_item :: "env \<Rightarrow> client \<Rightarrow> jsstring \<Rightarrow> nat list \<Rightarrow> history_item" where
  "new_item e c processingText url =
     \<lparr>item_id = random_id e,
      item_text = (if length processingText > 80 then take 80 processingText @ char_codes ''...''
                   else processingText),
      item_voice = voice_name (selectedVoice c),
      item_audioUrl = url,
      item_timestamp = now e\<rparr>"

text \<open>Lines 551 to 601, when the race has settled as the synthesis call did.\<close>

definition settled :: "env \<Rightarrow> client \<Rightarrow> call list \<Rightarrow> jsstring \<Rightarrow> client \<times> call list" where
  "settled e c calls1 processingText =
     (case synthesis e of
        Rejects err \<Rightarrow> (finally_generation (catch_generation err c), calls1)
      | Resolves (Some (d # ds)) \<Rightarrow>
          (let base64Audio = d # ds;
               calls2 = calls1 @ (if user_credits (user c) \<noteq> PosInf
                                  then [Deduct (length processingText)] else [])
           in case createWavUrl base64Audio 24000 of
                Inl err \<Rightarrow> (finally_generation (catch_generation err c), calls2)
              | Inr url \<Rightarrow>
                  (finally_generation
                     (c\<lparr>audioUrl := Some url,
                        history := new_item e c processingText url # history c\<rparr>),
                   calls2))
      | Resolves _ \<Rightarrow> (finally_generation (catch_generation empty_response c), calls1))"

definition synthesize :: "env \<Rightarrow> client \<Rightarrow> call list \<Rightarrow> jsstring \<Rightarrow> client \<times> call list" where
  "synthesize e c calls processingText =
     (let calls1 = calls @ [Synthesize processingText (voice_id (selectedVoice c))]
      in if cancel_while_synthesizing e then
           (let (c', aborted) = handleCancel c
            in if aborted then (finally_generation (catch_generation abort_rejection c'), calls1)
               else settled e c' calls1 processingText)
         else settled e c calls1 processingText)"

text \<open>
  \<^verbatim>\<open>generateSpeech\<close>, lines 446 to 512: everything before the synthesis step. \<open>Inl\<close> is a
  \<^verbatim>\<open>return\<close>; \<open>Inr\<close> goes on to line 514 with \<^verbatim>\<open>processingText\<close>.
\<close>

definition before_synthesis ::
  "env \<Rightarrow> client \<Rightarrow> (client \<times> call list) + (client \<times> call list \<times> jsstring)" where
  "before_synthesis e c =
     (case user c of
        Signed_out \<Rightarrow> Inl (c, [Login_popup])
      | _ \<Rightarrow>
          (case (if mode c \<noteq> Tts then resolve_text e c else Inr (c, [], text_input c)) of
             Inl stopped \<Rightarrow> Inl stopped
           | Inr (c1, calls, processingText) \<Rightarrow>
               if trim processingText = [] then
                 Inl (c1\<lparr>error := Some Text_is_empty, isGenerating := False,
                         loadingStatus := None\<rparr>, calls)
               else if length processingText > MAX_CHARS then
                 Inl (c1\<lparr>error := Some (Text_exceeds_limit MAX_CHARS),
                         isGenerating := False, loadingStatus := None\<rparr>, calls)
               else if user_credits (user c) \<noteq> PosInf
                       \<and> js_lt (user_credits (user c)) (Fin (real (length processingText))) then
                 Inl (c1\<lparr>error := Some (Insufficient_credits (length processingText)
                                             (user_credits (user c))),
                         showMonetization := True, isGenerating := False,
                         loadingStatus := None\<rparr>, calls)
               else Inr (c1, calls, processingText)))"

text \<open>\<^verbatim>\<open>generateSpeech\<close>, whole.\<close>

definition generateSpeech :: "env \<Rightarrow> client \<Rightarrow> client \<times> call list" where
  "generateSpeech e c =
     (case before_synthesis e c of
        Inl stopped \<Rightarrow> stopped
      | Inr (c1, calls, processingText) \<Rightarrow>
          synthesize e
            (c1\<lparr>isGenerating := True, loadingStatus := Some ''Generating AI voice...'',
                error := None, abortController := Some ()\<rparr>)
            calls processingText)"

text \<open>
  A run against the server. The deduction request of a run is a \<^verbatim>\<open>fetch\<close> whose answer is
  handled after the rest of \<^verbatim>\<open>generateSpeech\<close> has run: the server serves it, with the
  cookies of the browser, and \<^verbatim>\<open>setUser(data)\<close> stores the body it answers; a body that
  cannot be parsed goes to \<^verbatim>\<open>console.error\<close> and \<^verbatim>\<open>user\<close> stays.
\<close>

definition setUser :: "client_user option \<Rightarrow> client \<Rightarrow> client" where
  "setUser body c = (case body of None \<Rightarrow> c | Some data \<Rightarrow> c\<lparr>user := data\<rparr>)"

fun settle :: "jwt_verify \<Rightarrow> cookies \<Rightarrow> users_db \<times> client \<Rightarrow> call list \<Rightarrow> users_db \<times> client" where
  "settle verify req (usersDb, c) [] = (usersDb, c)"
| "settle verify req (usersDb, c) (Deduct amount # calls) =
     (let (usersDb', reply) = post_deduct verify usersDb req (Fin (real amount))
      in settle verify req (usersDb', setUser (from_json reply) c) calls)"
| "settle verify req (usersDb, c) (other # calls) = settle verify req (usersDb, c) calls"

definition run ::
  "jwt_verify \<Rightarrow> cookies \<Rightarrow> env \<Rightarrow> users_db \<times> client \<Rightarrow> (users_db \<times> client) \<times> call list" where
  "run verify req e w =
     (let (c', calls) = generateSpeech e (snd w)
      in (settle verify req (fst w, c') calls, calls))"

section \<open>Terms of the statements\<close>

text \<open>\<^verbatim>\<open>a <= b\<close> on numbers: false as soon as one side is NaN.\<close>

fun js_le :: "jsnum \<Rightarrow> jsnum \<Rightarrow> bool" where
  "js_le NaN _ = False"
| "js_le _ NaN = False"
| "js_le NegInf _ = True"
| "js_le _ PosInf = True"
| "js_le (Fin a) (Fin b) = (a \<le> b)"
| "js_le _ _ = False"

text \<open>
  The requests of a list that reach the account of \<open>em\<close> carry an amount that is a number:
  a finite one or an infinity, not NaN.
\<close>

definition numeric_amounts :: "jwt_verify \<Rightarrow> string \<Rightarrow> (cookies \<times> jsnum) list \<Rightarrow> bool" where
  "numeric_amounts verify em reqs =
     list_all (\<lambda>r. request_email verify (fst r) = Inr em \<longrightarrow> snd r \<noteq> NaN) reqs"

text \<open>A call that is neither the synthesis call nor the deduction request.\<close>

definition outside_only :: "call \<Rightarrow> bool" where
  "outside_only x = (case x of Deduct n \<Rightarrow> False | Synthesize t v \<Rightarrow> False | _ \<Rightarrow> True)"

text \<open>
  Concrete inputs: the account of \<^verbatim>\<open>a@x.com\<close> with a given balance, a request with the
  preview cookie of that user, a request with a session token, and a \<open>verify\<close> that
  accepts that one token.
\<close>

definition account_a :: "real \<Rightarrow> user_entry" where
  "account_a balance = \<lparr>email = ''a@x.com'', credits = Fin balance, isPremium = False\<rparr>"

definition preview_a :: cookies where
  "preview_a = \<lparr>mock_session = Some ''a@x.com'', session = None\<rparr>"

definition token_a :: cookies where
  "token_a = \<lparr>mock_session = None, session = Some ''signed-token-of-a''\<rparr>"

definition verify_a :: jwt_verify where
  "verify_a token = (if token = ''signed-token-of-a'' then Some ''a@x.com'' else None)"

text \<open>
  The first voice of \<^verbatim>\<open>VOICES\<close>, the state of the component as its \<^verbatim>\<open>useState\<close> calls
  set it up, that state with the profile of \<^verbatim>\<open>a@x.com\<close> loaded, an uploaded clip, the
  text \<^verbatim>\<open>hi\<close>, a text of 20001 letters, and the outside of a run with a fixed identifier
  and time.
\<close>

definition frank :: voice where
  "frank = \<lparr>voice_id = ''Puck'', voice_name = ''VoxAI Frank (Friend Style)''\<rparr>"

definition initial_client :: client where
  "initial_client =
     \<lparr>user = Signed_out, text_input = [], mode = Tts, uploadedAudio = None,
      targetLanguage = ''Hindi'', selectedVoice = frank, isGenerating = False,
      loadingStatus = None, error = None, showMonetization = False, audioUrl = None,
      history = [], abortController = None\<rparr>"

definition signed_in :: "real \<Rightarrow> client" where
  "signed_in balance = initial_client\<lparr>user := Profile (account_a balance)\<rparr>"

definition clip :: uploaded where
  "clip = \<lparr>upload_base64 = ''AAEC/w=='', upload_mimeType = ''audio/wav''\<rparr>"

definition hi :: jsstring where
  "hi = [104, 105]"

definition long_text :: jsstring where
  "long_text = replicate 20001 97"

definition outside :: "js_error + jsstring option \<Rightarrow> bool \<Rightarrow> synthesis_outcome \<Rightarrow> env" where
  "outside heard cancelled spoken =
     \<lparr>transcription = heard, cancel_while_transcribing = cancelled, synthesis = spoken,
      cancel_while_synthesizing = False, random_id = ''k3j9x0q2a'', now = 1700000000000\<rparr>"

section \<open>Rounding to the nearest double\<close>

lemma round_half_even_of_int: "round_half_even (of_int m) = m"
  by (simp add: round_half_even_def)

lemma round_half_even_bounds:
  "\<lfloor>t\<rfloor> \<le> round_half_even t \<and> round_half_even t \<le> \<lfloor>t\<rfloor> + 1"
  by (simp add: round_half_even_def Let_def)

lemma round_half_even_mono:
  assumes "t1 \<le> t2"
  shows "round_half_even t1 \<le> round_half_even t2"
proof (cases "\<lfloor>t1\<rfloor> = \<lfloor>t2\<rfloor>")
  case True
  then have "t1 - of_int \<lfloor>t1\<rfloor> \<le> t2 - of_int \<lfloor>t2\<rfloor>" using assms by simp
  then show ?thesis using True by (auto simp: round_half_even_def Let_def)
next
  case False
  then have "\<lfloor>t1\<rfloor> < \<lfloor>t2\<rfloor>" using floor_mono [OF assms] by linarith
  then show ?thesis
    using round_half_even_bounds [of t1] round_half_even_bounds [of t2] by linarith
qed

lemma round_half_even_le: "t \<le> of_int m \<Longrightarrow> round_half_even t \<le> m"
  using round_half_even_mono [of t "of_int m"] by (simp add: round_half_even_of_int)

lemma round_half_even_ge: "of_int m \<le> t \<Longrightarrow> m \<le> round_half_even t"
  using round_half_even_mono [of "of_int m" t] by (simp add: round_half_even_of_int)

lemma bitlen_mono: "x \<le> y \<Longrightarrow> bitlen x \<le> bitlen y"
  by (simp add: bitlen_def floorlog_mono)

lemma bitlen_eqI: "2 ^ k \<le> x \<Longrightarrow> x < 2 ^ (k + 1) \<Longrightarrow> bitlen x = int k + 1"
  by (auto simp: nat_add_distrib bitlen_le_iff_power bitlen_ge_iff_power intro!: antisym)

lemma floor_less_power_bitlen:
  assumes "0 \<le> (w :: real)"
  shows "w < 2 ^ nat (bitlen \<lfloor>w\<rfloor>)"
proof -
  have "\<lfloor>w\<rfloor> < 2 ^ nat (bitlen \<lfloor>w\<rfloor>)"
  proof (cases "0 < \<lfloor>w\<rfloor>")
    case True
    then show ?thesis using bitlen_bounds [of "\<lfloor>w\<rfloor>"] by simp
  next
    case False
    then have "\<lfloor>w\<rfloor> = 0" using assms by (simp add: order.antisym)
    then show ?thesis by simp
  qed
  then have "\<lfloor>w\<rfloor> + 1 \<le> 2 ^ nat (bitlen \<lfloor>w\<rfloor>)" by simp
  then have "of_int (\<lfloor>w\<rfloor> + 1) \<le> (of_int (2 ^ nat (bitlen \<lfloor>w\<rfloor>)) :: real)"
    by (rule of_int_le_iff [THEN iffD2])
  then have a: "of_int \<lfloor>w\<rfloor> + 1 \<le> (2 :: real) ^ nat (bitlen \<lfloor>w\<rfloor>)" by simp
  have b: "w < of_int \<lfloor>w\<rfloor> + 1" by linarith
  from a b show ?thesis by linarith
qed

lemma nearest_upper:
  assumes "0 \<le> w"
  shows "nearest w \<le> 2 ^ nat (bitlen \<lfloor>w\<rfloor>)"
proof -
  let ?L = "bitlen \<lfloor>w\<rfloor>"
  let ?s = "nat (?L - 53)"
  have sL: "?s \<le> nat ?L" by simp
  have "w / 2 ^ ?s \<le> 2 ^ nat ?L / 2 ^ ?s"
    using floor_less_power_bitlen [OF assms] by (simp add: divide_right_mono)
  also have "\<dots> = 2 ^ (nat ?L - ?s)"
    using sL by (simp add: power_diff)
  finally have "w / 2 ^ ?s \<le> of_int (2 ^ (nat ?L - ?s))" by simp
  then have "round_half_even (w / 2 ^ ?s) \<le> 2 ^ (nat ?L - ?s)"
    by (rule round_half_even_le)
  then have "(of_int (round_half_even (w / 2 ^ ?s)) :: real) \<le> of_int (2 ^ (nat ?L - ?s))"
    by (rule of_int_le_iff [THEN iffD2])
  then have "of_int (round_half_even (w / 2 ^ ?s)) * 2 ^ ?s \<le> (2 ^ (nat ?L - ?s) * 2 ^ ?s :: real)"
    by (simp add: mult_right_mono)
  also have "(2 ^ (nat ?L - ?s) * 2 ^ ?s :: real) = 2 ^ nat ?L"
    using sL by (simp add: power_add [symmetric])
  finally show ?thesis by (simp add: nearest_def Let_def)
qed

lemma nearest_lower:
  assumes "1 \<le> bitlen \<lfloor>w\<rfloor>"
  shows "2 ^ nat (bitlen \<lfloor>w\<rfloor> - 1) \<le> nearest w"
proof -
  let ?L = "bitlen \<lfloor>w\<rfloor>"
  let ?s = "nat (?L - 53)"
  have pos: "0 < \<lfloor>w\<rfloor>" using assms bitlen_eq_zero_iff [of "\<lfloor>w\<rfloor>"] by linarith
  have sL: "?s \<le> nat (?L - 1)" using assms by simp
  have "(2 ^ nat (?L - 1) :: int) \<le> \<lfloor>w\<rfloor>" using bitlen_bounds [OF pos] by simp
  then have low: "(2 ^ nat (?L - 1) :: real) \<le> w" by (simp add: le_floor_iff)
  have "(2 ^ (nat (?L - 1) - ?s) :: real) = 2 ^ nat (?L - 1) / 2 ^ ?s"
    using sL by (simp add: power_diff)
  also have "\<dots> \<le> w / 2 ^ ?s" using low by (simp add: divide_right_mono)
  finally have "of_int (2 ^ (nat (?L - 1) - ?s)) \<le> w / 2 ^ ?s" by simp
  then have "2 ^ (nat (?L - 1) - ?s) \<le> round_half_even (w / 2 ^ ?s)"
    by (rule round_half_even_ge)
  then have "(of_int (2 ^ (nat (?L - 1) - ?s)) :: real) \<le> of_int (round_half_even (w / 2 ^ ?s))"
    by (rule of_int_le_iff [THEN iffD2])
  then have "(2 ^ (nat (?L - 1) - ?s) * 2 ^ ?s :: real) \<le> of_int (round_half_even (w / 2 ^ ?s)) * 2 ^ ?s"
    by (simp add: mult_right_mono)
  moreover have "(2 ^ (nat (?L - 1) - ?s) * 2 ^ ?s :: real) = 2 ^ nat (?L - 1)"
    using sL by (simp add: power_add [symmetric])
  ultimately show ?thesis by (simp add: nearest_def Let_def)
qed

text \<open>Rounding keeps the order of the magnitudes.\<close>

lemma nearest_mono:
  assumes "0 \<le> w1" and "w1 \<le> w2"
  shows "nearest w1 \<le> nearest w2"
proof -
  let ?L1 = "bitlen \<lfloor>w1\<rfloor>" and ?L2 = "bitlen \<lfloor>w2\<rfloor>"
  let ?s1 = "nat (?L1 - 53)" and ?s2 = "nat (?L2 - 53)"
  have L: "?L1 \<le> ?L2" using assms(2) by (simp add: bitlen_mono floor_mono)
  show ?thesis
  proof (cases "?s1 = ?s2")
    case True
    have "w1 / 2 ^ ?s2 \<le> w2 / 2 ^ ?s2" using assms(2) by (simp add: divide_right_mono)
    then have "round_half_even (w1 / 2 ^ ?s2) \<le> round_half_even (w2 / 2 ^ ?s2)"
      by (rule round_half_even_mono)
    then have "(of_int (round_half_even (w1 / 2 ^ ?s2)) :: real)
        \<le> of_int (round_half_even (w2 / 2 ^ ?s2))"
      by (rule of_int_le_iff [THEN iffD2])
    then show ?thesis using True by (simp add: nearest_def Let_def mult_right_mono)
  next
    case False
    then have less: "?L1 < ?L2" "1 \<le> ?L2" using L bitlen_nonneg [of "\<lfloor>w1\<rfloor>"] by linarith+
    have "nearest w1 \<le> 2 ^ nat ?L1" using nearest_upper [OF assms(1)] .
    also have "(2 ^ nat ?L1 :: real) \<le> 2 ^ nat (?L2 - 1)"
      using less by (simp add: power_increasing)
    also have "\<dots> \<le> nearest w2" using nearest_lower [OF less(2)] .
    finally show ?thesis .
  qed
qed

lemma nearest_nonneg: "0 \<le> w \<Longrightarrow> 0 \<le> nearest w"
  using round_half_even_ge [of 0 "w / 2 ^ nat (bitlen \<lfloor>w\<rfloor> - 53)"]
  by (simp add: nearest_def Let_def)

lemma nearest_zero: "nearest 0 = 0"
  by (simp add: nearest_def round_half_even_def)

text \<open>A magnitude with a significand of at most 53 bits is not changed.\<close>

lemma nearest_exact:
  assumes "0 \<le> m" and "m < 2 ^ 53" and n: "n = m * 2 ^ j"
  shows "nearest (of_int n) = of_int n"
proof (cases "m = 0")
  case True
  then show ?thesis using n by (simp add: nearest_def round_half_even_def)
next
  case False
  then have pos: "0 < m" using assms(1) by simp
  let ?s = "nat (bitlen n - 53)"
  have "bitlen m \<le> 53"
    using assms(2) pos bitlen_le_iff_power [of m 53] by simp
  then have sj: "?s \<le> j" using pos n by simp
  have split: "(2 :: real) ^ j = 2 ^ (j - ?s) * 2 ^ ?s"
    using sj by (simp add: power_add [symmetric])
  have "(of_int n :: real) / 2 ^ ?s = of_int (m * 2 ^ (j - ?s))"
    by (simp add: split n)
  then have "round_half_even (of_int n / 2 ^ ?s) = m * 2 ^ (j - ?s)"
    by (simp only: round_half_even_of_int)
  then have "nearest (of_int n) = of_int (m * 2 ^ (j - ?s)) * 2 ^ ?s"
    by (simp add: nearest_def Let_def)
  also have "\<dots> = of_int (m * 2 ^ j)"
    by (simp add: split)
  finally show ?thesis using n by simp
qed

lemma round_double_nonneg:
  assumes "0 \<le> z"
  shows "js_le (Fin 0) (round_double z)"
proof -
  define P :: real where "P = 2 ^ 1074"
  define Q :: real where "Q = 2 ^ 1024"
  have P: "0 < P" and Q: "0 < Q" by (simp_all add: P_def Q_def)
  have rd: "round_double x =
      (let y = nearest (\<bar>x\<bar> * P) / P
       in if Q \<le> y then (if 0 < x then PosInf else NegInf)
          else Fin (if 0 \<le> x then y else - y))" for x
    unfolding round_double_def P_def Q_def ..
  have y: "0 \<le> nearest (\<bar>z\<bar> * P) / P"
    using nearest_nonneg [of "\<bar>z\<bar> * P"] P by simp
  show ?thesis
  proof (cases "0 < z")
    case True
    then show ?thesis using y by (simp add: rd Let_def)
  next
    case False
    then have "z = 0" using assms by simp
    then show ?thesis using Q by (simp add: rd [of 0] Let_def nearest_zero)
  qed
qed

text \<open>
  From a balance that is a double, subtracting a number that is not above zero never
  gives a lower balance.
\<close>

lemma round_double_mono:
  assumes "0 \<le> b" and "round_double b = Fin b" and "b \<le> z"
  shows "js_le (Fin b) (round_double z)"
proof -
  define P :: real where "P = 2 ^ 1074"
  define Q :: real where "Q = 2 ^ 1024"
  have P: "0 < P" and Q: "0 < Q" by (simp_all add: P_def Q_def)
  have rd: "round_double x =
      (let y = nearest (\<bar>x\<bar> * P) / P
       in if Q \<le> y then (if 0 < x then PosInf else NegInf)
          else Fin (if 0 \<le> x then y else - y))" for x
    unfolding round_double_def P_def Q_def ..
  have "nearest (\<bar>b\<bar> * P) \<le> nearest (\<bar>z\<bar> * P)"
    using assms(1,3) P by (intro nearest_mono) (simp_all add: mult_right_mono)
  then have le: "nearest (\<bar>b\<bar> * P) / P \<le> nearest (\<bar>z\<bar> * P) / P"
    using P by (simp add: divide_right_mono)
  have "nearest (\<bar>b\<bar> * P) / P = b"
    using assms(1,2) by (simp add: rd Let_def split: if_splits)
  with le have y: "b \<le> nearest (\<bar>z\<bar> * P) / P" by simp
  show ?thesis
  proof (cases "0 < z")
    case True
    then show ?thesis using y by (simp add: rd [of z] Let_def)
  next
    case False
    then have "z = 0" "b = 0" using assms(1,3) by simp_all
    then show ?thesis using Q by (simp add: rd [of 0] Let_def nearest_zero)
  qed
qed

text \<open>The integers below \<open>2 ^ 53\<close> in magnitude are doubles.\<close>

lemma round_double_of_int:
  assumes "\<bar>k\<bar> < 2 ^ 53"
  shows "round_double (of_int k) = Fin (of_int k)"
proof -
  define P :: real where "P = 2 ^ 1074"
  define Q :: real where "Q = 2 ^ 1024"
  have P: "0 < P" and Q: "2 ^ 53 \<le> Q" by (simp_all add: P_def Q_def)
  have rd: "round_double x =
      (let y = nearest (\<bar>x\<bar> * P) / P
       in if Q \<le> y then (if 0 < x then PosInf else NegInf)
          else Fin (if 0 \<le> x then y else - y))" for x
    unfolding round_double_def P_def Q_def ..
  have "nearest (of_int (\<bar>k\<bar> * 2 ^ 1074)) = of_int (\<bar>k\<bar> * 2 ^ 1074)"
    using assms by (intro nearest_exact [of "\<bar>k\<bar>" _ 1074]) simp_all
  moreover have "(of_int (\<bar>k\<bar> * 2 ^ 1074) :: real) = \<bar>of_int k\<bar> * P"
    unfolding P_def by (simp only: of_int_mult of_int_power of_int_numeral of_int_abs)
  ultimately have "nearest (\<bar>of_int k\<bar> * P) = \<bar>of_int k\<bar> * P" by (simp only:)
  then have eq: "nearest (\<bar>of_int k\<bar> * P) / P = \<bar>of_int k\<bar>"
    using P by simp
  have "(of_int \<bar>k\<bar> :: real) < of_int (2 ^ 53)"
    using assms by (rule of_int_less_iff [THEN iffD2])
  then have "\<bar>of_int k :: real\<bar> < Q" using Q by simp
  then show ?thesis
    unfolding rd Let_def eq by auto
qed

lemma round_double_numeral:
  "numeral n < (2 ^ 53 :: int) \<Longrightarrow> round_double (numeral n) = Fin (numeral n)"
  "numeral n < (2 ^ 53 :: int) \<Longrightarrow> round_double (- numeral n) = Fin (- numeral n)"
  "round_double 0 = Fin 0" "round_double 1 = Fin 1"
  using round_double_of_int [of "numeral n"] round_double_of_int [of "- numeral n"]
    round_double_of_int [of 0] round_double_of_int [of 1]
  by simp_all

text \<open>
  Three numbers of JavaScript: \<^verbatim>\<open>0.1\<close> is the double \<open>3602879701896397 / 2 ^ 55\<close> and
  \<^verbatim>\<open>1e-13\<close> the double \<open>3961408125713217 / 2 ^ 95\<close>; \<^verbatim>\<open>20000 - 0.1\<close> is the double
  \<open>2748765325544653 / 2 ^ 37\<close>, which prints as \<^verbatim>\<open>19999.9\<close>, and \<^verbatim>\<open>20000 - (-1e-13)\<close> is
  \<^verbatim>\<open>20000\<close>.
\<close>

lemma tenth_is_double:
  "round_double (3602879701896397 / 2 ^ 55) = Fin (3602879701896397 / 2 ^ 55)"
proof -
  have "nearest (of_int (3602879701896397 * 2 ^ 1019)) = of_int (3602879701896397 * 2 ^ 1019)"
    by (rule nearest_exact [of 3602879701896397 _ 1019]) simp_all
  moreover have "\<bar>3602879701896397 / 2 ^ 55 :: real\<bar> * 2 ^ 1074 = of_int (3602879701896397 * 2 ^ 1019)"
    by simp
  ultimately have "nearest (\<bar>3602879701896397 / 2 ^ 55\<bar> * 2 ^ 1074) / 2 ^ 1074
      = 3602879701896397 / 2 ^ 55"
    by simp
  then show ?thesis
    unfolding round_double_def Let_def by simp
qed

lemma tiny_is_double:
  "round_double (- (3961408125713217 / 2 ^ 95)) = Fin (- (3961408125713217 / 2 ^ 95))"
proof -
  have "nearest (of_int (3961408125713217 * 2 ^ 979)) = of_int (3961408125713217 * 2 ^ 979)"
    by (rule nearest_exact [of 3961408125713217 _ 979]) simp_all
  moreover have "\<bar>- (3961408125713217 / 2 ^ 95) :: real\<bar> * 2 ^ 1074
      = of_int (3961408125713217 * 2 ^ 979)"
    by simp
  ultimately have "nearest (\<bar>- (3961408125713217 / 2 ^ 95)\<bar> * 2 ^ 1074) / 2 ^ 1074
      = 3961408125713217 / 2 ^ 95"
    by simp
  then show ?thesis
    unfolding round_double_def Let_def by simp
qed

lemma nearest_less_tenth:
  "nearest ((20000 - 3602879701896397 / 2 ^ 55) * 2 ^ 1074) = 2748765325544653 * 2 ^ 1037"
proof -
  define n :: int where "n = 20000 * 2 ^ 1074 - 3602879701896397 * 2 ^ 1019"
  have w: "((20000 - 3602879701896397 / 2 ^ 55) * 2 ^ 1074 :: real) = of_int n"
    by (simp add: n_def)
  have "bitlen n = int 1088 + 1"
    by (rule bitlen_eqI) (simp_all add: n_def)
  then have s: "nat (bitlen n - 53) = 1036" by simp
  have q: "(of_int n :: real) / 2 ^ 1036 = 5497558138880000 - 3602879701896397 / 2 ^ 17"
    by (simp add: n_def)
  have r: "round_half_even (5497558138880000 - 3602879701896397 / 2 ^ 17) = 5497530651089306"
    by (simp add: round_half_even_def Let_def)
  show ?thesis
    unfolding w nearest_def Let_def floor_of_int s q r by simp
qed

lemma round_double_less_tenth:
  "round_double (20000 - 3602879701896397 / 2 ^ 55) = Fin (2748765325544653 / 2 ^ 37)"
proof -
  have a: "\<bar>20000 - 3602879701896397 / 2 ^ 55 :: real\<bar> * 2 ^ 1074
      = (20000 - 3602879701896397 / 2 ^ 55) * 2 ^ 1074" by simp
  show ?thesis
    unfolding round_double_def a nearest_less_tenth by (simp add: Let_def)
qed

lemma nearest_absorbs:
  "nearest ((20000 + 3961408125713217 / 2 ^ 95) * 2 ^ 1074) = 20000 * 2 ^ 1074"
proof -
  define n :: int where "n = 20000 * 2 ^ 1074 + 3961408125713217 * 2 ^ 979"
  have w: "((20000 + 3961408125713217 / 2 ^ 95) * 2 ^ 1074 :: real) = of_int n"
    by (simp add: n_def)
  have "bitlen n = int 1088 + 1"
    by (rule bitlen_eqI) (simp_all add: n_def)
  then have s: "nat (bitlen n - 53) = 1036" by simp
  have q: "(of_int n :: real) / 2 ^ 1036 = 5497558138880000 + 3961408125713217 / 2 ^ 57"
    by (simp add: n_def)
  have r: "round_half_even (5497558138880000 + 3961408125713217 / 2 ^ 57) = 5497558138880000"
    by (simp add: round_half_even_def Let_def)
  show ?thesis
    unfolding w nearest_def Let_def floor_of_int s q r by simp
qed

lemma round_double_absorbs:
  "round_double (20000 - (- (3961408125713217 / 2 ^ 95))) = Fin 20000"
proof -
  have a: "\<bar>20000 - (- (3961408125713217 / 2 ^ 95)) :: real\<bar> * 2 ^ 1074
      = (20000 + 3961408125713217 / 2 ^ 95) * 2 ^ 1074" by simp
  show ?thesis
    unfolding round_double_def a nearest_absorbs by (simp add: Let_def)
qed

section \<open>The ledger never goes below zero\<close>

lemma request_email_preview_a: "request_email verify preview_a = Inr ''a@x.com''"
  by (simp add: request_email_def preview_a_def)

lemma request_email_token_a: "request_email verify_a token_a = Inr ''a@x.com''"
  by (simp add: request_email_def token_a_def verify_a_def)

lemma mock_session_token_a: "mock_session token_a = None"
  by (simp add: token_a_def)

lemma mock_session_preview_a: "mock_session preview_a = Some ''a@x.com''"
  by (simp add: preview_a_def)

lemma post_deduct_own:
  assumes "request_email verify req = Inr em" and "usersDb em = Some u"
  shows "post_deduct verify usersDb req amount =
     (if credits u \<noteq> PosInf then
        (if js_lt (credits u) amount
         then (usersDb, Reply_error 400 ''Insufficient credits'')
         else (usersDb(em \<mapsto> u\<lparr>credits := js_sub (credits u) amount\<rparr>),
               Reply_user (u\<lparr>credits := js_sub (credits u) amount\<rparr>)))
      else (usersDb, Reply_user u))"
  using assms by (simp add: post_deduct_def lookup_user_def Let_def)

lemma post_deduct_other:
  assumes "usersDb e = Some u" and "request_email verify req \<noteq> Inr e"
  shows "fst (post_deduct verify usersDb req amount) e = Some u"
  using assms
  by (auto simp: post_deduct_def lookup_user_def Let_def
      split: sum.splits option.splits stored.splits if_splits)

lemma js_sub_not_below_zero:
  assumes "0 \<le> b" and "amount \<noteq> NaN" and "\<not> js_lt (Fin b) amount"
  shows "js_le amount (Fin b) \<and> js_le (Fin 0) (js_sub (Fin b) amount)"
  using assms by (cases amount) (simp_all add: round_double_nonneg)

lemma post_deduct_not_below_zero:
  assumes "usersDb e = Some u" and "js_le (Fin 0) (credits u)"
    and "request_email verify req = Inr e \<longrightarrow> amount \<noteq> NaN"
  shows "\<exists>u'. fst (post_deduct verify usersDb req amount) e = Some u' \<and>
              js_le (Fin 0) (credits u')"
proof (cases "request_email verify req = Inr e")
  case True
  then have n: "amount \<noteq> NaN" using assms(3) by simp
  note own = post_deduct_own [of verify req e usersDb u amount, OF True assms(1)]
  show ?thesis
  proof (cases "credits u")
    case (Fin b)
    then have b: "0 \<le> b" using assms(2) by simp
    show ?thesis
      using js_sub_not_below_zero [OF b n] assms(1,2) Fin own
      by simp
  qed (use assms(1,2) own in simp_all)
next
  case False
  then show ?thesis
    using post_deduct_other [of usersDb e u verify req amount] assms(1,2) by simp
qed

lemma deduct_all_not_below_zero:
  "usersDb e = Some u \<Longrightarrow> js_le (Fin 0) (credits u) \<Longrightarrow> numeric_amounts verify e reqs \<Longrightarrow>
   \<exists>u'. deduct_all verify usersDb reqs e = Some u' \<and> js_le (Fin 0) (credits u')"
proof (induction reqs arbitrary: usersDb u)
  case Nil
  then show ?case by simp
next
  case (Cons r reqs)
  obtain req amount where r: "r = (req, amount)" by (cases r)
  have n: "request_email verify req = Inr e \<longrightarrow> amount \<noteq> NaN"
    and rest: "numeric_amounts verify e reqs"
    using Cons.prems(3) by (simp_all add: numeric_amounts_def r)
  obtain u1 where u1: "fst (post_deduct verify usersDb req amount) e = Some u1"
    "js_le (Fin 0) (credits u1)"
    using post_deduct_not_below_zero [of usersDb e u verify req amount] Cons.prems(1,2) n
    by blast
  show ?case
    using Cons.IH [of "fst (post_deduct verify usersDb req amount)" u1] u1 rest by (simp add: r)
qed

text \<open>
  Against claim C1 as it is written: a request that carries no amount, or one that is not
  a number, is not refused (no comparison with NaN holds) and subtracts NaN. The amount
  is not one that is no greater than the balance of 100, and the balance it leaves is
  not a number at or above zero: it is NaN, and from then on no request is refused, here
  one for a million credits.
\<close>

theorem amount_not_a_number_is_deducted:
  "post_deduct verify_a [''a@x.com'' \<mapsto> account_a 100] preview_a NaN =
     ([''a@x.com'' \<mapsto> (account_a 100)\<lparr>credits := NaN\<rparr>],
      Reply_user ((account_a 100)\<lparr>credits := NaN\<rparr>)) \<and>
   \<not> js_le NaN (Fin 100) \<and> \<not> js_le (Fin 0) NaN \<and>
   post_deduct verify_a [''a@x.com'' \<mapsto> (account_a 100)\<lparr>credits := NaN\<rparr>] preview_a (Fin 1000000) =
     ([''a@x.com'' \<mapsto> (account_a 100)\<lparr>credits := NaN\<rparr>],
      Reply_user ((account_a 100)\<lparr>credits := NaN\<rparr>))"
  by (simp add: post_deduct_def lookup_user_def request_email_preview_a account_a_def Let_def)

text \<open>
  Claim C1, amended. An account holds a finite balance \<open>b \<ge> 0\<close>. After any sequence of
  deduction requests, by whichever users, in which the requests that reach this account
  carry an amount that is a number (a finite one or an infinity, not NaN), the account
  is still there and its balance is a number at or above zero, or Infinity. A single
  such request to the account is either refused with status 400 and the message
  \<^verbatim>\<open>Insufficient credits\<close>, the table unchanged, or it subtracts the amount, which is no
  greater than the balance, and what is left is at or above zero. The handler is
  synchronous, so requests that arrive together are such a sequence.
\<close>

theorem deduct_never_below_zero:
  assumes "usersDb e = Some u" and "credits u = Fin b" and "0 \<le> b"
  shows "(numeric_amounts verify e reqs \<longrightarrow>
            (\<exists>u'. deduct_all verify usersDb reqs e = Some u' \<and> js_le (Fin 0) (credits u'))) \<and>
         (request_email verify req = Inr e \<and> amount \<noteq> NaN \<longrightarrow>
            (post_deduct verify usersDb req amount =
               (usersDb, Reply_error 400 ''Insufficient credits'') \<and>
             js_lt (Fin b) amount)
            \<or> (post_deduct verify usersDb req amount =
                 (usersDb(e \<mapsto> u\<lparr>credits := js_sub (Fin b) amount\<rparr>),
                  Reply_user (u\<lparr>credits := js_sub (Fin b) amount\<rparr>)) \<and>
               js_le amount (Fin b) \<and> js_le (Fin 0) (js_sub (Fin b) amount)))"
proof -
  have nn: "js_le (Fin 0) (credits u)" using assms by simp
  have all: "numeric_amounts verify e reqs \<longrightarrow>
      (\<exists>u'. deduct_all verify usersDb reqs e = Some u' \<and> js_le (Fin 0) (credits u'))"
    using deduct_all_not_below_zero [of usersDb e u verify reqs] assms(1) nn by blast
  have step: "request_email verify req = Inr e \<and> amount \<noteq> NaN \<longrightarrow>
            (post_deduct verify usersDb req amount =
               (usersDb, Reply_error 400 ''Insufficient credits'') \<and>
             js_lt (Fin b) amount)
            \<or> (post_deduct verify usersDb req amount =
                 (usersDb(e \<mapsto> u\<lparr>credits := js_sub (Fin b) amount\<rparr>),
                  Reply_user (u\<lparr>credits := js_sub (Fin b) amount\<rparr>)) \<and>
               js_le amount (Fin b) \<and> js_le (Fin 0) (js_sub (Fin b) amount))"
  proof (intro impI, elim conjE)
    assume r: "request_email verify req = Inr e" and n: "amount \<noteq> NaN"
    show "(post_deduct verify usersDb req amount =
               (usersDb, Reply_error 400 ''Insufficient credits'') \<and>
             js_lt (Fin b) amount)
            \<or> (post_deduct verify usersDb req amount =
                 (usersDb(e \<mapsto> u\<lparr>credits := js_sub (Fin b) amount\<rparr>),
                  Reply_user (u\<lparr>credits := js_sub (Fin b) amount\<rparr>)) \<and>
               js_le amount (Fin b) \<and> js_le (Fin 0) (js_sub (Fin b) amount))"
      using js_sub_not_below_zero [OF assms(3) n] assms(2)
      by (cases "js_lt (Fin b) amount")
        (simp_all add: post_deduct_own [of verify req e usersDb u amount, OF r assms(1)])
  qed
  from all step show ?thesis by blast
qed

text \<open>
  At a balance of 100: 30 is deducted, 80 is refused, 70 is deducted, and the balance
  ends at 0; a request for 500 answers 400.
\<close>

theorem deduct_never_below_zero_witness:
  "numeric_amounts verify_a ''a@x.com''
     [(preview_a, Fin 30), (token_a, Fin 80), (preview_a, Fin 70)] \<and>
   deduct_all verify_a [''a@x.com'' \<mapsto> account_a 100]
     [(preview_a, Fin 30), (token_a, Fin 80), (preview_a, Fin 70)] ''a@x.com''
     = Some (account_a 0) \<and>
   js_le (Fin 0) (credits (account_a 0)) \<and>
   post_deduct verify_a [''a@x.com'' \<mapsto> account_a 100] preview_a (Fin 500) =
     ([''a@x.com'' \<mapsto> account_a 100], Reply_error 400 ''Insufficient credits'')"
  using deduct_never_below_zero [of "[''a@x.com'' \<mapsto> account_a 100]" "''a@x.com''" "account_a 100"
      100 verify_a "[(preview_a, Fin 30), (token_a, Fin 80), (preview_a, Fin 70)]" preview_a
      "Fin 500"]
  by (simp add: post_deduct_def lookup_user_def request_email_preview_a request_email_token_a
      account_a_def numeric_amounts_def round_double_numeral Let_def)

section \<open>Check and deduct\<close>

text \<open>
  Claim C2. A deduction request whose cookies give the e-mail of an existing account, for
  any amount: an account that holds Infinity is answered with itself and the table is
  unchanged; otherwise, when the balance is less than the amount, the answer is status
  400 with \<^verbatim>\<open>Insufficient credits\<close> and the table is unchanged; otherwise the amount is
  subtracted from the balance of that account, no other entry changes, and the updated
  account is the answer. The subtraction is the one of JavaScript: the balance stored
  and answered is the double nearest to the difference.
\<close>

theorem check_and_deduct_cases:
  assumes "request_email verify req = Inr em" and "usersDb em = Some u"
  shows "(credits u = PosInf \<longrightarrow>
            post_deduct verify usersDb req amount = (usersDb, Reply_user u)) \<and>
         (credits u \<noteq> PosInf \<and> js_lt (credits u) amount \<longrightarrow>
            post_deduct verify usersDb req amount =
              (usersDb, Reply_error 400 ''Insufficient credits'')) \<and>
         (credits u \<noteq> PosInf \<and> \<not> js_lt (credits u) amount \<longrightarrow>
            post_deduct verify usersDb req amount =
              (usersDb(em \<mapsto> u\<lparr>credits := js_sub (credits u) amount\<rparr>),
               Reply_user (u\<lparr>credits := js_sub (credits u) amount\<rparr>)))"
  using assms by (simp add: post_deduct_def lookup_user_def Let_def)

text \<open>
  With a session token: 30 from 100 leaves 70; 500 from 100 is refused; Infinity stays;
  and \<^verbatim>\<open>0.1\<close> from 20000 leaves the double that prints as \<^verbatim>\<open>19999.9\<close>.
\<close>

theorem check_and_deduct_cases_witness:
  "post_deduct verify_a [''a@x.com'' \<mapsto> account_a 100] token_a (Fin 30) =
     ([''a@x.com'' \<mapsto> account_a 70], Reply_user (account_a 70)) \<and>
   post_deduct verify_a [''a@x.com'' \<mapsto> account_a 100] token_a (Fin 500) =
     ([''a@x.com'' \<mapsto> account_a 100], Reply_error 400 ''Insufficient credits'') \<and>
   post_deduct verify_a [''a@x.com'' \<mapsto> (account_a 100)\<lparr>credits := PosInf\<rparr>] token_a (Fin 500) =
     ([''a@x.com'' \<mapsto> (account_a 100)\<lparr>credits := PosInf\<rparr>],
      Reply_user ((account_a 100)\<lparr>credits := PosInf\<rparr>)) \<and>
   post_deduct verify_a [''a@x.com'' \<mapsto> account_a 20000] token_a
       (Fin (3602879701896397 / 2 ^ 55)) =
     ([''a@x.com'' \<mapsto> account_a (2748765325544653 / 2 ^ 37)],
      Reply_user (account_a (2748765325544653 / 2 ^ 37)))"
proof -
  have a: "js_sub (Fin 100) (Fin 30) = Fin 70"
    by (simp add: round_double_numeral)
  have b: "js_sub (Fin 20000) (Fin (3602879701896397 / 2 ^ 55)) = Fin (2748765325544653 / 2 ^ 37)"
    by (simp only: js_sub.simps round_double_less_tenth)
  have c: "\<not> js_lt (Fin 20000) (Fin (3602879701896397 / 2 ^ 55))" by simp
  show ?thesis
    using check_and_deduct_cases [of verify_a token_a "''a@x.com''" "[''a@x.com'' \<mapsto> account_a 100]"
        "account_a 100" "Fin 30"]
      check_and_deduct_cases [of verify_a token_a "''a@x.com''" "[''a@x.com'' \<mapsto> account_a 100]"
        "account_a 100" "Fin 500"]
      check_and_deduct_cases [of verify_a token_a "''a@x.com''"
        "[''a@x.com'' \<mapsto> (account_a 100)\<lparr>credits := PosInf\<rparr>]"
        "(account_a 100)\<lparr>credits := PosInf\<rparr>" "Fin 500"]
      check_and_deduct_cases [of verify_a token_a "''a@x.com''" "[''a@x.com'' \<mapsto> account_a 20000]"
        "account_a 20000" "Fin (3602879701896397 / 2 ^ 55)"]
      a b c
    by (simp add: request_email_token_a account_a_def)
qed

section \<open>An amount below zero\<close>

text \<open>
  Against claim C10 as it is written: at a balance of 20000 the amount \<^verbatim>\<open>-1e-13\<close>, a
  negative number, passes the test and is subtracted, and the balance stored and
  answered is 20000 again: the difference is nearer to the double 20000 than to the next
  double above it. The balance has not increased.
\<close>

theorem tiny_negative_amount_leaves_balance:
  "js_lt (Fin (- (3961408125713217 / 2 ^ 95))) (Fin 0) \<and>
   round_double (- (3961408125713217 / 2 ^ 95)) = Fin (- (3961408125713217 / 2 ^ 95)) \<and>
   post_deduct verify_a [''a@x.com'' \<mapsto> account_a 20000] preview_a
       (Fin (- (3961408125713217 / 2 ^ 95))) =
     ([''a@x.com'' \<mapsto> account_a 20000], Reply_user (account_a 20000)) \<and>
   \<not> js_lt (Fin 20000) (js_sub (Fin 20000) (Fin (- (3961408125713217 / 2 ^ 95))))"
proof -
  have a: "js_sub (Fin 20000) (Fin (- (3961408125713217 / 2 ^ 95))) = Fin 20000"
    by (simp only: js_sub.simps round_double_absorbs)
  have b: "\<not> js_lt (Fin 20000) (Fin (- (3961408125713217 / 2 ^ 95)))" by simp
  have c: "js_lt (Fin (- (3961408125713217 / 2 ^ 95))) (Fin 0)" by simp
  have p: "post_deduct verify_a [''a@x.com'' \<mapsto> account_a 20000] preview_a
       (Fin (- (3961408125713217 / 2 ^ 95))) =
     ([''a@x.com'' \<mapsto> account_a 20000], Reply_user (account_a 20000))"
    using post_deduct_own [of verify_a preview_a "''a@x.com''" "[''a@x.com'' \<mapsto> account_a 20000]"
        "account_a 20000" "Fin (- (3961408125713217 / 2 ^ 95))"] a b
    by (simp add: request_email_preview_a account_a_def)
  have d: "\<not> js_lt (Fin 20000) (js_sub (Fin 20000) (Fin (- (3961408125713217 / 2 ^ 95))))"
    unfolding a by simp
  from c tiny_is_double p d show ?thesis by blast
qed

text \<open>
  Claim C10, amended. The handler does not test the sign of the amount. For an account
  whose balance is a finite double \<open>b \<ge> 0\<close> and an amount below zero (a negative number,
  or minus Infinity), the request is not refused: the amount is subtracted and the
  updated account is the answer. The new balance is never lower than \<open>b\<close>. It is strictly
  greater when the balance and the amount are integers whose difference is below
  \<open>2 ^ 53\<close>, where the subtraction is exact, and it is Infinity for minus Infinity.
\<close>

theorem negative_amount_never_lowers_balance:
  assumes "request_email verify req = Inr em" and "usersDb em = Some u"
    and "credits u = Fin b" and "0 \<le> b" and "round_double b = Fin b"
    and "js_lt amount (Fin 0)"
  shows "post_deduct verify usersDb req amount =
           (usersDb(em \<mapsto> u\<lparr>credits := js_sub (Fin b) amount\<rparr>),
            Reply_user (u\<lparr>credits := js_sub (Fin b) amount\<rparr>)) \<and>
         js_le (Fin b) (js_sub (Fin b) amount) \<and>
         (\<forall>i j. b = of_int i \<and> amount = Fin (of_int j) \<and> i - j < 2 ^ 53 \<longrightarrow>
            js_sub (Fin b) amount = Fin (of_int (i - j)) \<and>
            js_lt (Fin b) (js_sub (Fin b) amount)) \<and>
         (amount = NegInf \<longrightarrow> js_sub (Fin b) amount = PosInf)"
proof -
  have accepted: "\<not> js_lt (Fin b) amount"
    using assms(4,6) by (cases amount) simp_all
  have p: "post_deduct verify usersDb req amount =
           (usersDb(em \<mapsto> u\<lparr>credits := js_sub (Fin b) amount\<rparr>),
            Reply_user (u\<lparr>credits := js_sub (Fin b) amount\<rparr>))"
    using accepted assms(3)
    by (simp add: post_deduct_own [of verify req em usersDb u amount, OF assms(1,2)])
  have le: "js_le (Fin b) (js_sub (Fin b) amount)"
  proof (cases amount)
    case (Fin a)
    then have "b \<le> b - a" using assms(6) by simp
    then show ?thesis
      using round_double_mono [OF assms(4,5), of "b - a"] Fin by simp
  qed (use assms(6) in simp_all)
  have exact: "\<forall>i j. b = of_int i \<and> amount = Fin (of_int j) \<and> i - j < 2 ^ 53 \<longrightarrow>
            js_sub (Fin b) amount = Fin (of_int (i - j)) \<and>
            js_lt (Fin b) (js_sub (Fin b) amount)"
  proof (intro allI impI, elim conjE)
    fix i j :: int
    assume b: "b = of_int i" and a: "amount = Fin (of_int j)" and small: "i - j < 2 ^ 53"
    have j: "j < 0" using assms(6) a by simp
    have i: "0 \<le> i" using assms(4) b by simp
    have "\<bar>i - j\<bar> < 2 ^ 53" using i j small by simp
    then have r: "round_double (of_int (i - j)) = Fin (of_int (i - j))"
      by (rule round_double_of_int)
    have s: "js_sub (Fin b) amount = Fin (of_int (i - j))"
      using r by (simp add: a b)
    have "js_lt (Fin b) (Fin (of_int (i - j)))"
      using j by (simp add: b)
    with s show "js_sub (Fin b) amount = Fin (of_int (i - j)) \<and>
            js_lt (Fin b) (js_sub (Fin b) amount)"
      by (simp only:)
  qed
  have inf: "amount = NegInf \<longrightarrow> js_sub (Fin b) amount = PosInf" by simp
  from p le exact inf show ?thesis by blast
qed

text \<open>An amount of -5000 at a balance of 100 leaves 5100.\<close>

theorem negative_amount_never_lowers_balance_witness:
  "round_double 100 = Fin 100 \<and>
   post_deduct verify_a [''a@x.com'' \<mapsto> account_a 100] preview_a (Fin (- 5000)) =
     ([''a@x.com'' \<mapsto> account_a 5100], Reply_user (account_a 5100)) \<and>
   js_le (Fin 100) (Fin 5100) \<and> js_lt (Fin 100) (Fin 5100)"
proof -
  have a: "round_double 100 = Fin 100" by (simp add: round_double_numeral)
  have s: "js_sub (Fin 100) (Fin (- 5000)) = Fin 5100"
    by (simp add: round_double_numeral)
  show ?thesis
    using negative_amount_never_lowers_balance [of verify_a preview_a "''a@x.com''"
        "[''a@x.com'' \<mapsto> account_a 100]" "account_a 100" 100 "Fin (- 5000)"] a
    by (simp add: request_email_preview_a account_a_def s del: js_sub.simps)
qed

section \<open>Where an account is created\<close>

lemma a_not_prototype_key: "''a@x.com'' \<notin> set prototype_keys"
  by (simp add: prototype_keys_def)

text \<open>
  Against claim C6 as it is written: a valid session token for \<^verbatim>\<open>a@x.com\<close>, presented to
  \<^verbatim>\<open>GET /api/user\<close> while the table has no entry for that e-mail (the table is in memory
  and a token lasts seven days), is answered 404 \<^verbatim>\<open>User not found\<close>, and the table is
  still empty afterwards.
\<close>

theorem token_without_account_not_created:
  "get_user verify_a Map.empty token_a = (Map.empty, Reply_error 404 ''User not found'')"
  by (simp add: get_user_def lookup_user_def request_email_token_a mock_session_token_a
      a_not_prototype_key)

text \<open>
  A preview cookie that names a property of \<^verbatim>\<open>Object.prototype\<close>, here \<^verbatim>\<open>constructor\<close>, on
  the empty table: the test of line 149 finds the inherited value, so
  \<^verbatim>\<open>GET /api/user\<close> creates nothing and answers with that value; the test of line 197
  finds it too, so \<^verbatim>\<open>POST /api/user/deduct\<close> does not answer 404 but 200, and the table
  is empty as before.
\<close>

lemma inherited_name_creates_nothing:
  "get_user verify Map.empty \<lparr>mock_session = Some ''constructor'', session = None\<rparr> =
     (Map.empty, Reply_inherited ''constructor'') \<and>
   post_deduct verify Map.empty \<lparr>mock_session = Some ''constructor'', session = None\<rparr> (Fin 5) =
     (Map.empty, Reply_inherited ''constructor'')"
  by (simp add: get_user_def post_deduct_def initialize_user_def lookup_user_def json_reply_def
      request_email_def prototype_keys_def)

text \<open>
  Claim C6, amended. For an e-mail that is not the name of a property of
  \<^verbatim>\<open>Object.prototype\<close>, an entry is created on first sight in two places: by
  \<^verbatim>\<open>GET /api/user\<close> for the e-mail of a preview cookie, and by the OAuth callback for the
  e-mail of the provider, before the session token is signed; the new entry holds
  Infinity for a listed e-mail and 20000 otherwise. Resolving a session token creates
  nothing: with no preview cookie and no entry for the e-mail of the token,
  \<^verbatim>\<open>GET /api/user\<close> answers 404 \<^verbatim>\<open>User not found\<close> and leaves the table as it was. So does
  \<^verbatim>\<open>POST /api/user/deduct\<close> for any such e-mail without an entry, the preview cookie
  included.
\<close>

theorem account_creation_paths:
  "(mock_session req = Some (x # xs) \<and> x # xs \<notin> set prototype_keys \<longrightarrow>
      (\<exists>u. get_user verify usersDb req = (fst (initialize_user usersDb (x # xs)), Reply_user u) \<and>
           fst (initialize_user usersDb (x # xs)) (x # xs) = Some u \<and>
           (usersDb (x # xs) = None \<longrightarrow>
              u = \<lparr>email = x # xs,
                   credits = (if x # xs \<in> set SPECIAL_EMAILS then PosInf else Fin 20000),
                   isPremium = (x # xs \<in> set SPECIAL_EMAILS)\<rparr>))) \<and>
   (em \<notin> set prototype_keys \<longrightarrow>
      (\<exists>u. auth_callback sign usersDb (Some em) =
              (fst (initialize_user usersDb em), Session_cookie (sign em)) \<and>
            fst (initialize_user usersDb em) em = Some u \<and>
            (usersDb em = None \<longrightarrow>
               u = \<lparr>email = em,
                    credits = (if em \<in> set SPECIAL_EMAILS then PosInf else Fin 20000),
                    isPremium = (em \<in> set SPECIAL_EMAILS)\<rparr>))) \<and>
   (\<not> (\<exists>x xs. mock_session req = Some (x # xs)) \<and> request_email verify req = Inr em \<and>
    usersDb em = None \<and> em \<notin> set prototype_keys \<longrightarrow>
      get_user verify usersDb req = (usersDb, Reply_error 404 ''User not found'')) \<and>
   (request_email verify req = Inr em \<and> usersDb em = None \<and> em \<notin> set prototype_keys \<longrightarrow>
      post_deduct verify usersDb req amount = (usersDb, Reply_error 404 ''User not found''))"
proof -
  have created: "k \<notin> set prototype_keys \<Longrightarrow>
      \<exists>u. snd (initialize_user usersDb k) = Own u \<and>
          fst (initialize_user usersDb k) k = Some u \<and>
          (usersDb k = None \<longrightarrow>
             u = \<lparr>email = k, credits = (if k \<in> set SPECIAL_EMAILS then PosInf else Fin 20000),
                  isPremium = (k \<in> set SPECIAL_EMAILS)\<rparr>)" for k
    by (cases "usersDb k") (simp_all add: initialize_user_def lookup_user_def Let_def)
  have preview: "mock_session req = Some (x # xs) \<and> x # xs \<notin> set prototype_keys \<longrightarrow>
      (\<exists>u. get_user verify usersDb req = (fst (initialize_user usersDb (x # xs)), Reply_user u) \<and>
           fst (initialize_user usersDb (x # xs)) (x # xs) = Some u \<and>
           (usersDb (x # xs) = None \<longrightarrow>
              u = \<lparr>email = x # xs,
                   credits = (if x # xs \<in> set SPECIAL_EMAILS then PosInf else Fin 20000),
                   isPremium = (x # xs \<in> set SPECIAL_EMAILS)\<rparr>))"
  proof (intro impI, elim conjE)
    assume m: "mock_session req = Some (x # xs)" and k: "x # xs \<notin> set prototype_keys"
    obtain u where u: "snd (initialize_user usersDb (x # xs)) = Own u"
      "fst (initialize_user usersDb (x # xs)) (x # xs) = Some u"
      "usersDb (x # xs) = None \<longrightarrow>
         u = \<lparr>email = x # xs,
              credits = (if x # xs \<in> set SPECIAL_EMAILS then PosInf else Fin 20000),
              isPremium = (x # xs \<in> set SPECIAL_EMAILS)\<rparr>"
      using created [OF k] by auto
    have g: "get_user verify usersDb req = (fst (initialize_user usersDb (x # xs)), Reply_user u)"
      by (simp add: get_user_def json_reply_def case_prod_beta Let_def m u(1))
    show "\<exists>u. get_user verify usersDb req =
           (fst (initialize_user usersDb (x # xs)), Reply_user u) \<and>
           fst (initialize_user usersDb (x # xs)) (x # xs) = Some u \<and>
           (usersDb (x # xs) = None \<longrightarrow>
              u = \<lparr>email = x # xs,
                   credits = (if x # xs \<in> set SPECIAL_EMAILS then PosInf else Fin 20000),
                   isPremium = (x # xs \<in> set SPECIAL_EMAILS)\<rparr>)"
      by (rule exI [of _ u]) (intro conjI g u)
  qed
  have callback: "em \<notin> set prototype_keys \<longrightarrow>
      (\<exists>u. auth_callback sign usersDb (Some em) =
              (fst (initialize_user usersDb em), Session_cookie (sign em)) \<and>
            fst (initialize_user usersDb em) em = Some u \<and>
            (usersDb em = None \<longrightarrow>
               u = \<lparr>email = em,
                    credits = (if em \<in> set SPECIAL_EMAILS then PosInf else Fin 20000),
                    isPremium = (em \<in> set SPECIAL_EMAILS)\<rparr>))"
  proof (intro impI)
    assume k: "em \<notin> set prototype_keys"
    obtain u where u: "snd (initialize_user usersDb em) = Own u"
      "fst (initialize_user usersDb em) em = Some u"
      "usersDb em = None \<longrightarrow>
         u = \<lparr>email = em,
              credits = (if em \<in> set SPECIAL_EMAILS then PosInf else Fin 20000),
              isPremium = (em \<in> set SPECIAL_EMAILS)\<rparr>"
      using created [OF k] by auto
    have g: "auth_callback sign usersDb (Some em) =
              (fst (initialize_user usersDb em), Session_cookie (sign em))"
      by (simp add: auth_callback_def)
    show "\<exists>u. auth_callback sign usersDb (Some em) =
              (fst (initialize_user usersDb em), Session_cookie (sign em)) \<and>
            fst (initialize_user usersDb em) em = Some u \<and>
            (usersDb em = None \<longrightarrow>
               u = \<lparr>email = em,
                    credits = (if em \<in> set SPECIAL_EMAILS then PosInf else Fin 20000),
                    isPremium = (em \<in> set SPECIAL_EMAILS)\<rparr>)"
      by (rule exI [of _ u]) (intro conjI g u)
  qed
  have token: "\<not> (\<exists>x xs. mock_session req = Some (x # xs)) \<and> request_email verify req = Inr em \<and>
    usersDb em = None \<and> em \<notin> set prototype_keys \<longrightarrow>
      get_user verify usersDb req = (usersDb, Reply_error 404 ''User not found'')"
    by (auto simp: get_user_def lookup_user_def split: option.splits list.splits)
  have deduct: "request_email verify req = Inr em \<and> usersDb em = None \<and>
    em \<notin> set prototype_keys \<longrightarrow>
      post_deduct verify usersDb req amount = (usersDb, Reply_error 404 ''User not found'')"
    by (simp add: post_deduct_def lookup_user_def)
  show ?thesis by (intro conjI preview callback token deduct)
qed

text \<open>
  On an empty table: the preview cookie of \<^verbatim>\<open>a@x.com\<close> creates the account with 20000
  credits, the callback does the same, the token alone is answered 404, and so is a
  deduction with the preview cookie.
\<close>

theorem account_creation_paths_witness:
  "''a@x.com'' \<notin> set prototype_keys \<and>
   get_user verify_a Map.empty preview_a =
     ([''a@x.com'' \<mapsto> account_a 20000], Reply_user (account_a 20000)) \<and>
   auth_callback (\<lambda>em. ''signed-token-of-a'') Map.empty (Some ''a@x.com'') =
     ([''a@x.com'' \<mapsto> account_a 20000], Session_cookie ''signed-token-of-a'') \<and>
   get_user verify_a Map.empty token_a = (Map.empty, Reply_error 404 ''User not found'') \<and>
   post_deduct verify_a Map.empty preview_a (Fin 5) =
     (Map.empty, Reply_error 404 ''User not found'')"
  using account_creation_paths [of preview_a "CHR ''a''" "''@x.com''" verify_a Map.empty
      "''a@x.com''" "\<lambda>em. ''signed-token-of-a''" "Fin 5"]
    account_creation_paths [of token_a "CHR ''a''" "''@x.com''" verify_a Map.empty
      "''a@x.com''" "\<lambda>em. ''signed-token-of-a''" "Fin 5"]
    a_not_prototype_key
  by (simp add: request_email_token_a request_email_preview_a mock_session_token_a
      mock_session_preview_a initialize_user_def lookup_user_def SPECIAL_EMAILS_def
      account_a_def Let_def)

section \<open>The audio container\<close>

lemma header_buffer:
  "replicate (44 + n) (0::nat) =
     [0,0,0,0, 0,0,0,0, 0,0,0,0, 0,0,0,0, 0,0,0,0, 0,0,0,0, 0,0,0,0, 0,0,0,0, 0,0,0,0, 0,0,0,0, 0,0,0,0]
     @ replicate n 0"
  by (simp add: replicate_add numeral_eq_Suc)

lemma uint16_roundtrip:
  "u < 65536 \<Longrightarrow> u mod 256 + 256 * (u div 256 mod 256) = (u::nat)"
  by simp

lemma uint32_roundtrip:
  assumes "u < 4294967296"
  shows "u mod 256 + 256 * (u div 256 mod 256) + 65536 * (u div 65536 mod 256)
           + 16777216 * (u div 16777216 mod 256) = (u::nat)"
proof -
  have a: "u div 65536 = u div 256 div 256" by (simp add: div_mult2_eq[symmetric])
  have b: "u div 16777216 = u div 256 div 256 div 256" by (simp add: div_mult2_eq[symmetric])
  have top: "u div 16777216 mod 256 = u div 16777216" using assms by simp
  have "u = u mod 256 + 256 * (u div 256)" by simp
  moreover have "u div 256 = u div 256 mod 256 + 256 * (u div 256 div 256)" by simp
  moreover have "u div 256 div 256 = u div 256 div 256 mod 256 + 256 * (u div 256 div 256 div 256)"
    by simp
  ultimately show ?thesis unfolding top unfolding a b by linarith
qed

lemma uint32_roundtrip_top:
  assumes "u < 4294967296"
  shows "u mod 256 + 256 * (u div 256 mod 256) + 65536 * (u div 65536 mod 256)
           + 16777216 * (u div 16777216) = (u::nat)"
  using uint32_roundtrip [OF assms] assms by simp

lemma ToUint32_less: "ToUint32 x < 4294967296"
  by (simp add: ToUint32_def nat_less_iff)

lemma getUint32_written:
  "length pre = off \<Longrightarrow> u < 4294967296 \<Longrightarrow>
   getUint32 (pre @ uint32_bytes u @ post) off True = Some u"
  by (simp add: getUint32_def byte_order_def uint32_bytes_def uint32_roundtrip_top)

lemma getUint16_written:
  "length pre = off \<Longrightarrow> u < 65536 \<Longrightarrow>
   getUint16 (pre @ uint16_bytes u @ post) off True = Some u"
  by (simp add: getUint16_def byte_order_def uint16_bytes_def)

lemma createWavUrl_layout:
  assumes "atob b = Some bin"
  shows "createWavUrl b R =
     Inr (char_codes ''RIFF'' @ uint32_bytes (ToUint32 (36 + int (length bin)))
          @ char_codes ''WAVE'' @ char_codes ''fmt '' @ uint32_bytes (ToUint32 16)
          @ uint16_bytes (ToUint16 1) @ uint16_bytes (ToUint16 1)
          @ uint32_bytes (ToUint32 R) @ uint32_bytes (ToUint32 (R * 2))
          @ uint16_bytes (ToUint16 2) @ uint16_bytes (ToUint16 16)
          @ char_codes ''data'' @ uint32_bytes (ToUint32 (int (length bin)))
          @ map (\<lambda>c. c mod 256) bin)"
  using assms
  apply (simp add: createWavUrl_def Let_def header_buffer del: replicate_add)
  apply (simp add: char_codes_def setUint8_def setUint16_def setUint32_def write_at_def overwrite_def
      byte_order_def ToUint8_def uint32_bytes_def uint16_bytes_def Let_def)
  done


lemma ToUint16_small: "0 \<le> x \<Longrightarrow> x < 65536 \<Longrightarrow> ToUint16 x = nat x"
  by (simp add: ToUint16_def)

lemma ToUint32_small: "0 \<le> x \<Longrightarrow> x < 4294967296 \<Longrightarrow> ToUint32 x = nat x"
  by (simp add: ToUint32_def)

lemma atob_sample: "atob ''AAEC/w=='' = Some [0, 1, 2, 255]"
  by (simp add: atob_def strip_padding_def ascii_whitespace_def base64_index_def Let_def)

lemma atob_empty: "atob [] = Some []"
  by (simp add: atob_def strip_padding_def)

text \<open>
  Against claim C9 as it is written: at a sample rate of 2147483648 the byte rate
  \<open>R * 2\<close> is 4294967296, and the field at offset 28 of the container of the empty
  payload holds 0: \<^verbatim>\<open>setUint32\<close> stores its value modulo \<open>2 ^ 32\<close>.
\<close>

theorem byte_rate_field_wraps:
  "(case createWavUrl [] 2147483648 of Inl err \<Rightarrow> None | Inr buf \<Rightarrow> getUint32 buf 28 True) = Some 0"
  using createWavUrl_layout [OF atob_empty, of 2147483648]
  by (simp add: getUint32_def byte_order_def char_codes_def uint32_bytes_def uint16_bytes_def
      ToUint32_def ToUint16_def)

text \<open>
  Claim C9, amended. For every base64 string that \<^verbatim>\<open>atob\<close> decodes, to a payload of \<open>N\<close>
  bytes, and every integer sample rate \<open>R\<close>, \<^verbatim>\<open>createWavUrl\<close> returns a buffer and does
  not throw. The buffer has \<open>44 + N\<close> bytes: the tags \<^verbatim>\<open>RIFF\<close>, \<^verbatim>\<open>WAVE\<close>, \<^verbatim>\<open>fmt \<close> and
  \<^verbatim>\<open>data\<close> at offsets 0, 8, 12 and 36, the payload from offset 44 on, and little-endian
  fields that read back as: format 1 and channel count 1 at offsets 20 and 22, block
  size 2 and bit depth 16 at offsets 32 and 34, the sample rate at 24, the byte rate
  \<open>R * 2\<close> at 28 and the payload length \<open>N\<close> at 40, the last three modulo \<open>2 ^ 32\<close>. The
  payload length is exactly \<open>N\<close> when \<open>N < 2 ^ 32\<close>, and the byte rate exactly \<open>R * 2\<close>
  when \<open>0 \<le> R\<close> and \<open>R * 2 < 2 ^ 32\<close>. The empty payload is the case \<open>N = 0\<close>.
\<close>

theorem wav_container:
  assumes "atob b = Some bin"
  shows "\<exists>buf. createWavUrl b R = Inr buf \<and> length buf = 44 + length bin \<and>
           take 4 buf = char_codes ''RIFF'' \<and> take 4 (drop 8 buf) = char_codes ''WAVE'' \<and>
           take 4 (drop 12 buf) = char_codes ''fmt '' \<and> take 4 (drop 36 buf) = char_codes ''data'' \<and>
           drop 44 buf = map (\<lambda>c. c mod 256) bin \<and>
           getUint32 buf 4 True = Some (ToUint32 (36 + int (length bin))) \<and>
           getUint32 buf 16 True = Some 16 \<and>
           getUint16 buf 20 True = Some 1 \<and>
           getUint16 buf 22 True = Some 1 \<and>
           getUint32 buf 24 True = Some (ToUint32 R) \<and>
           getUint32 buf 28 True = Some (ToUint32 (R * 2)) \<and>
           getUint16 buf 32 True = Some 2 \<and>
           getUint16 buf 34 True = Some 16 \<and>
           getUint32 buf 40 True = Some (ToUint32 (int (length bin))) \<and>
           (length bin < 4294967296 \<longrightarrow> getUint32 buf 40 True = Some (length bin)) \<and>
           (0 \<le> R \<and> R * 2 < 4294967296 \<longrightarrow> getUint32 buf 28 True = Some (nat (R * 2)))"
proof -
  let ?N = "ToUint32 (int (length bin))"
  let ?riff = "char_codes ''RIFF'' @ uint32_bytes (ToUint32 (36 + int (length bin)))
               @ char_codes ''WAVE''"
  let ?fmt = "char_codes ''fmt '' @ uint32_bytes (ToUint32 16) @ uint16_bytes (ToUint16 1)
              @ uint16_bytes (ToUint16 1) @ uint32_bytes (ToUint32 R)
              @ uint32_bytes (ToUint32 (R * 2)) @ uint16_bytes (ToUint16 2)
              @ uint16_bytes (ToUint16 16)"
  let ?data = "char_codes ''data'' @ uint32_bytes ?N"
  let ?payload = "map (\<lambda>c. c mod 256) bin"
  let ?buf = "?riff @ ?fmt @ ?data @ ?payload"
  have buf: "createWavUrl b R = Inr ?buf"
    using createWavUrl_layout [OF assms, of R] by simp
  have len: "length ?buf = 44 + length bin"
    by (simp add: char_codes_def uint32_bytes_def uint16_bytes_def)
  have tags: "take 4 ?buf = char_codes ''RIFF'' \<and> take 4 (drop 8 ?buf) = char_codes ''WAVE'' \<and>
      take 4 (drop 12 ?buf) = char_codes ''fmt '' \<and> take 4 (drop 36 ?buf) = char_codes ''data'' \<and>
      drop 44 ?buf = ?payload"
    by (simp add: char_codes_def uint32_bytes_def uint16_bytes_def)
  have u32: "\<And>pre off x post. length pre = off \<Longrightarrow>
      getUint32 (pre @ uint32_bytes (ToUint32 x) @ post) off True = Some (ToUint32 x)"
    by (rule getUint32_written) (simp_all add: ToUint32_less)
  have u16: "\<And>pre off x post. length pre = off \<Longrightarrow> 0 \<le> x \<Longrightarrow> x < 65536 \<Longrightarrow>
      getUint16 (pre @ uint16_bytes (ToUint16 x) @ post) off True = Some (nat x)"
    using getUint16_written by (simp add: ToUint16_small)
  have f4: "getUint32 ?buf 4 True = Some (ToUint32 (36 + int (length bin)))"
    using u32 [of "char_codes ''RIFF''" 4 "36 + int (length bin)"
        "char_codes ''WAVE'' @ ?fmt @ ?data @ ?payload"]
    by (simp add: char_codes_def)
  have f16: "getUint32 ?buf 16 True = Some 16"
    using u32 [of "?riff @ char_codes ''fmt ''" 16 16
        "uint16_bytes (ToUint16 1) @ uint16_bytes (ToUint16 1) @ uint32_bytes (ToUint32 R)
         @ uint32_bytes (ToUint32 (R * 2)) @ uint16_bytes (ToUint16 2)
         @ uint16_bytes (ToUint16 16) @ ?data @ ?payload"]
    by (simp add: ToUint32_small char_codes_def uint32_bytes_def)
  have f20: "getUint16 ?buf 20 True = Some 1"
    using u16 [of "?riff @ char_codes ''fmt '' @ uint32_bytes (ToUint32 16)" 20 1
        "uint16_bytes (ToUint16 1) @ uint32_bytes (ToUint32 R)
         @ uint32_bytes (ToUint32 (R * 2)) @ uint16_bytes (ToUint16 2)
         @ uint16_bytes (ToUint16 16) @ ?data @ ?payload"]
    by (simp add: char_codes_def uint32_bytes_def)
  have f22: "getUint16 ?buf 22 True = Some 1"
    using u16 [of "?riff @ char_codes ''fmt '' @ uint32_bytes (ToUint32 16)
          @ uint16_bytes (ToUint16 1)" 22 1
        "uint32_bytes (ToUint32 R)
         @ uint32_bytes (ToUint32 (R * 2)) @ uint16_bytes (ToUint16 2)
         @ uint16_bytes (ToUint16 16) @ ?data @ ?payload"]
    by (simp add: char_codes_def uint32_bytes_def uint16_bytes_def)
  have f24: "getUint32 ?buf 24 True = Some (ToUint32 R)"
    using u32 [of "?riff @ char_codes ''fmt '' @ uint32_bytes (ToUint32 16)
          @ uint16_bytes (ToUint16 1) @ uint16_bytes (ToUint16 1)" 24 R
        "uint32_bytes (ToUint32 (R * 2)) @ uint16_bytes (ToUint16 2)
         @ uint16_bytes (ToUint16 16) @ ?data @ ?payload"]
    by (simp add: char_codes_def uint32_bytes_def uint16_bytes_def)
  have f28: "getUint32 ?buf 28 True = Some (ToUint32 (R * 2))"
    using u32 [of "?riff @ char_codes ''fmt '' @ uint32_bytes (ToUint32 16)
          @ uint16_bytes (ToUint16 1) @ uint16_bytes (ToUint16 1)
          @ uint32_bytes (ToUint32 R)" 28 "R * 2"
        "uint16_bytes (ToUint16 2) @ uint16_bytes (ToUint16 16) @ ?data @ ?payload"]
    by (simp add: char_codes_def uint32_bytes_def uint16_bytes_def)
  have f32: "getUint16 ?buf 32 True = Some 2"
    using u16 [of "?riff @ char_codes ''fmt '' @ uint32_bytes (ToUint32 16)
          @ uint16_bytes (ToUint16 1) @ uint16_bytes (ToUint16 1)
          @ uint32_bytes (ToUint32 R) @ uint32_bytes (ToUint32 (R * 2))" 32 2
        "uint16_bytes (ToUint16 16) @ ?data @ ?payload"]
    by (simp add: char_codes_def uint32_bytes_def uint16_bytes_def)
  have f34: "getUint16 ?buf 34 True = Some 16"
    using u16 [of "?riff @ char_codes ''fmt '' @ uint32_bytes (ToUint32 16)
          @ uint16_bytes (ToUint16 1) @ uint16_bytes (ToUint16 1)
          @ uint32_bytes (ToUint32 R) @ uint32_bytes (ToUint32 (R * 2))
          @ uint16_bytes (ToUint16 2)" 34 16
        "?data @ ?payload"]
    by (simp add: char_codes_def uint32_bytes_def uint16_bytes_def)
  have f40: "getUint32 ?buf 40 True = Some ?N"
    using u32 [of "?riff @ ?fmt @ char_codes ''data''" 40 "int (length bin)" ?payload]
    by (simp add: char_codes_def uint32_bytes_def uint16_bytes_def)
  have exact_N: "length bin < 4294967296 \<longrightarrow> getUint32 ?buf 40 True = Some (length bin)"
  proof
    assume "length bin < 4294967296"
    then have "?N = length bin" by (simp add: ToUint32_small)
    with f40 show "getUint32 ?buf 40 True = Some (length bin)" by (simp only:)
  qed
  have exact_R: "0 \<le> R \<and> R * 2 < 4294967296 \<longrightarrow> getUint32 ?buf 28 True = Some (nat (R * 2))"
  proof
    assume "0 \<le> R \<and> R * 2 < 4294967296"
    then have "ToUint32 (R * 2) = nat (R * 2)" by (simp add: ToUint32_small)
    with f28 show "getUint32 ?buf 28 True = Some (nat (R * 2))" by (simp only:)
  qed
  from buf len tags f4 f16 f20 f22 f24 f28 f32 f34 f40 exact_N exact_R
  show ?thesis by blast
qed

text \<open>
  The base64 string \<^verbatim>\<open>AAEC/w==\<close> decodes to the four bytes 0, 1, 2, 255; at 24000 Hz the
  container has 48 bytes, a byte rate of 48000 and a payload length of 4.
\<close>

theorem wav_container_witness:
  "atob ''AAEC/w=='' = Some [0, 1, 2, 255] \<and>
   (\<exists>buf. createWavUrl ''AAEC/w=='' 24000 = Inr buf \<and> length buf = 48 \<and>
      drop 44 buf = [0, 1, 2, 255] \<and>
      getUint16 buf 22 True = Some 1 \<and> getUint16 buf 34 True = Some 16 \<and>
      getUint32 buf 28 True = Some 48000 \<and> getUint32 buf 40 True = Some 4)"
  using wav_container [OF atob_sample, of 24000] atob_sample by auto

section \<open>Runs of the client\<close>

lemma trim_Nil_iff: "trim s = [] \<longleftrightarrow> list_all js_whitespace s"
proof
  assume "trim s = []"
  then have "\<forall>x\<in>set (dropWhile js_whitespace s). js_whitespace x"
    by (simp add: trim_def dropWhile_eq_Nil_conv)
  then have "dropWhile js_whitespace s = []"
    using hd_dropWhile [of js_whitespace s] hd_in_set [of "dropWhile js_whitespace s"] by blast
  then show "list_all js_whitespace s"
    by (simp add: dropWhile_eq_Nil_conv list_all_iff)
next
  assume "list_all js_whitespace s"
  then show "trim s = []"
    by (auto simp: trim_def list_all_iff dropWhile_eq_Nil_conv dest: set_dropWhileD)
qed

lemma transcribing_keeps:
  "history (transcribing e c) = history c \<and> audioUrl (transcribing e c) = audioUrl c \<and>
   user (transcribing e c) = user c \<and> selectedVoice (transcribing e c) = selectedVoice c"
  by (simp add: transcribing_def handleCancel_def Let_def split: option.splits)

lemma transcribing_without_controller:
  "abortController c = None \<Longrightarrow>
   transcribing (e\<lparr>cancel_while_transcribing := True\<rparr>) c =
   transcribing (e\<lparr>cancel_while_transcribing := False\<rparr>) c"
  by (simp add: transcribing_def handleCancel_def Let_def)

lemma resolve_text_stopped:
  "resolve_text e c = Inl (c', calls) \<Longrightarrow>
     history c' = history c \<and> audioUrl c' = audioUrl c \<and> list_all outside_only calls"
  by (auto simp: resolve_text_def transcribing_keeps outside_only_def Let_def
      split: option.splits sum.splits if_splits)

lemma resolve_text_goes_on:
  "resolve_text e c = Inr (c1, calls, t) \<Longrightarrow>
     history c1 = history c \<and> audioUrl c1 = audioUrl c \<and> user c1 = user c \<and>
     selectedVoice c1 = selectedVoice c \<and> list_all outside_only calls \<and> trim t \<noteq> []"
  by (auto simp: resolve_text_def transcribing_keeps outside_only_def Let_def
      split: option.splits sum.splits if_splits)

lemma before_synthesis_stopped:
  "before_synthesis e c = Inl (c', calls) \<Longrightarrow>
     history c' = history c \<and> audioUrl c' = audioUrl c \<and> list_all outside_only calls"
  by (auto simp: before_synthesis_def outside_only_def
      dest!: resolve_text_stopped resolve_text_goes_on
      split: client_user.splits sum.splits if_splits)

lemma before_synthesis_goes_on:
  "before_synthesis e c = Inr (c1, calls, t) \<Longrightarrow>
     history c1 = history c \<and> audioUrl c1 = audioUrl c \<and> user c1 = user c \<and>
     selectedVoice c1 = selectedVoice c \<and> list_all outside_only calls \<and> trim t \<noteq> [] \<and>
     length t \<le> MAX_CHARS \<and>
     \<not> (user_credits (user c) \<noteq> PosInf \<and> js_lt (user_credits (user c)) (Fin (real (length t))))"
  by (auto simp: before_synthesis_def outside_only_def
      dest!: resolve_text_goes_on
      split: client_user.splits sum.splits if_splits)

lemma generateSpeech_stopped:
  "before_synthesis e c = Inl (c', calls) \<Longrightarrow> generateSpeech e c = (c', calls)"
  by (simp add: generateSpeech_def)

lemma generateSpeech_goes_on:
  "before_synthesis e c = Inr (c1, calls, t) \<Longrightarrow>
   generateSpeech e c =
     synthesize e (c1\<lparr>isGenerating := True, loadingStatus := Some ''Generating AI voice...'',
                      error := None, abortController := Some ()\<rparr>) calls t"
  by (simp add: generateSpeech_def)

lemma tts_goes_on:
  assumes "user c \<noteq> Signed_out" and "mode c = Tts" and "\<not> list_all js_whitespace (text_input c)"
    and "length (text_input c) \<le> MAX_CHARS"
    and "\<not> (user_credits (user c) \<noteq> PosInf \<and>
             js_lt (user_credits (user c)) (Fin (real (length (text_input c)))))"
  shows "before_synthesis e c = Inr (c, [], text_input c)"
  using assms by (cases "user c") (auto simp: before_synthesis_def trim_Nil_iff)

lemma tts_too_long:
  assumes "user c \<noteq> Signed_out" and "mode c = Tts" and "\<not> list_all js_whitespace (text_input c)"
    and "MAX_CHARS < length (text_input c)"
  shows "before_synthesis e c =
     Inl (c\<lparr>error := Some (Text_exceeds_limit MAX_CHARS), isGenerating := False,
            loadingStatus := None\<rparr>, [])"
  using assms by (cases "user c") (auto simp: before_synthesis_def trim_Nil_iff)

lemma resolve_text_heard:
  assumes "uploadedAudio c = Some audio" and "transcription e = Inr (Some t)"
    and "\<not> list_all js_whitespace t"
  shows "resolve_text e c =
     Inr ((transcribing e c)\<lparr>text_input := t\<rparr>, [Transcribe (mode c) (targetLanguage c) audio], t)"
  using assms by (simp add: resolve_text_def trim_Nil_iff Let_def)

lemma upload_goes_on:
  assumes "user c \<noteq> Signed_out" and "mode c \<noteq> Tts" and "uploadedAudio c = Some audio"
    and "transcription e = Inr (Some t)" and "\<not> list_all js_whitespace t"
    and "length t \<le> MAX_CHARS"
    and "\<not> (user_credits (user c) \<noteq> PosInf \<and> js_lt (user_credits (user c)) (Fin (real (length t))))"
  shows "before_synthesis e c =
     Inr ((transcribing e c)\<lparr>text_input := t\<rparr>, [Transcribe (mode c) (targetLanguage c) audio], t)"
  using assms resolve_text_heard [OF assms(3,4,5)]
  by (cases "user c") (auto simp: before_synthesis_def trim_Nil_iff)

lemma upload_too_long:
  assumes "user c \<noteq> Signed_out" and "mode c \<noteq> Tts" and "uploadedAudio c = Some audio"
    and "transcription e = Inr (Some t)" and "\<not> list_all js_whitespace t"
    and "MAX_CHARS < length t"
  shows "before_synthesis e c =
     Inl ((transcribing e c)\<lparr>text_input := t, error := Some (Text_exceeds_limit MAX_CHARS),
            isGenerating := False, loadingStatus := None\<rparr>,
          [Transcribe (mode c) (targetLanguage c) audio])"
  using assms resolve_text_heard [OF assms(3,4,5)]
  by (cases "user c") (auto simp: before_synthesis_def trim_Nil_iff)

lemma upload_not_heard:
  assumes "user c \<noteq> Signed_out" and "mode c \<noteq> Tts" and "uploadedAudio c = Some audio"
    and "transcription e = Inr t"
    and "list_all js_whitespace (case t of None \<Rightarrow> [] | Some s \<Rightarrow> s)"
  shows "before_synthesis e c =
     Inl ((transcribing e c)\<lparr>error := Some (Process_audio_failed
                                      (Some ''Could not extract speech from audio.'')),
            isGenerating := False, loadingStatus := None\<rparr>,
          [Transcribe (mode c) (targetLanguage c) audio])"
proof -
  have blank: "trim (case t of None \<Rightarrow> [] | Some s \<Rightarrow> s) = []"
    using assms(5) by (simp add: trim_Nil_iff)
  have "resolve_text e c =
     Inl ((transcribing e c)\<lparr>error := Some (Process_audio_failed
                                      (Some ''Could not extract speech from audio.'')),
            isGenerating := False, loadingStatus := None\<rparr>,
          [Transcribe (mode c) (targetLanguage c) audio])"
    using assms(3,4) blank by (simp add: resolve_text_def Let_def)
  then show ?thesis
    using assms(1,2) by (cases "user c") (simp_all add: before_synthesis_def)
qed

lemma settle_outside_only:
  "list_all outside_only calls \<Longrightarrow> settle verify req (usersDb, c) calls = (usersDb, c)"
  by (induction calls) (auto simp: outside_only_def split: call.splits)

lemma settle_append:
  "settle verify req w (xs @ ys) = settle verify req (settle verify req w xs) ys"
proof (induction xs arbitrary: w)
  case Nil
  then show ?case by (cases w) simp
next
  case (Cons x xs)
  then show ?case by (cases w; cases x) (simp_all add: Let_def split: prod.splits)
qed

lemma settle_no_deduct:
  "list_all outside_only pre \<Longrightarrow>
   settle verify req (usersDb, c) (pre @ [Synthesize t v]) = (usersDb, c)"
  by (simp add: settle_append settle_outside_only)

lemma settle_deduct_last:
  assumes "list_all outside_only pre"
  shows "settle verify req (usersDb, c) (pre @ [Synthesize t v] @ [Deduct n]) =
     (fst (post_deduct verify usersDb req (Fin (real n))),
      setUser (from_json (snd (post_deduct verify usersDb req (Fin (real n))))) c)"
  using assms
  by (simp add: settle_append settle_outside_only Let_def split: prod.splits)

lemma not_outside_only_Synthesize: "list_all outside_only calls \<Longrightarrow> Synthesize t v \<notin> set calls"
  by (auto simp: list_all_iff outside_only_def)

lemma not_outside_only_Deduct: "list_all outside_only calls \<Longrightarrow> Deduct n \<notin> set calls"
  by (auto simp: list_all_iff outside_only_def)

lemma abort_not_recognised:
  "catch_generation abort_rejection c = c\<lparr>error := Some (Error_message ''AbortError'')\<rparr>"
  by (simp add: catch_generation_def abort_rejection_def)

lemma catch_generation_keeps:
  "history (catch_generation err c) = history c \<and> audioUrl (catch_generation err c) = audioUrl c"
  by (simp add: catch_generation_def)

lemma synthesize_cancelled:
  assumes "cancel_while_synthesizing e" and "abortController c = Some ()"
  shows "synthesize e c calls t =
     (finally_generation
        (catch_generation abort_rejection
           (c\<lparr>abortController := None, isGenerating := False, loadingStatus := None\<rparr>)),
      calls @ [Synthesize t (voice_id (selectedVoice c))])"
  using assms by (simp add: synthesize_def handleCancel_def Let_def)

lemma synthesize_not_cancelled:
  assumes "\<not> cancel_while_synthesizing e"
  shows "synthesize e c calls t =
     settled e c (calls @ [Synthesize t (voice_id (selectedVoice c))]) t"
  using assms by (simp add: synthesize_def Let_def)

lemma settled_without_data:
  assumes "\<forall>d ds. synthesis e \<noteq> Resolves (Some (d # ds))"
  shows "snd (settled e c calls1 t) = calls1 \<and>
         history (fst (settled e c calls1 t)) = history c \<and>
         audioUrl (fst (settled e c calls1 t)) = audioUrl c"
  using assms
  by (auto simp: settled_def finally_generation_def catch_generation_keeps Let_def
      split: synthesis_outcome.splits option.splits list.splits sum.splits)

lemma synthesize_without_data:
  assumes "cancel_while_synthesizing e \<or> (\<forall>d ds. synthesis e \<noteq> Resolves (Some (d # ds)))"
    and "abortController c = Some ()"
  shows "snd (synthesize e c calls t) = calls @ [Synthesize t (voice_id (selectedVoice c))]"
proof (cases "cancel_while_synthesizing e")
  case True
  then show ?thesis using synthesize_cancelled [OF True assms(2)] by simp
next
  case False
  then have "\<forall>d ds. synthesis e \<noteq> Resolves (Some (d # ds))" using assms(1) by simp
  then show ?thesis
    using settled_without_data [of e c] by (simp add: synthesize_not_cancelled [OF False])
qed

lemma synthesize_without_data_state:
  assumes "cancel_while_synthesizing e \<or> (\<forall>d ds. synthesis e \<noteq> Resolves (Some (d # ds)))"
    and "abortController c = Some ()"
  shows "history (fst (synthesize e c calls t)) = history c \<and>
         audioUrl (fst (synthesize e c calls t)) = audioUrl c"
proof (cases "cancel_while_synthesizing e")
  case True
  then show ?thesis
    using synthesize_cancelled [OF True assms(2)]
    by (simp add: finally_generation_def catch_generation_keeps)
next
  case False
  then have "\<forall>d ds. synthesis e \<noteq> Resolves (Some (d # ds))" using assms(1) by simp
  then show ?thesis
    using settled_without_data [of e c] by (simp add: synthesize_not_cancelled [OF False])
qed

lemma synthesize_delivers:
  assumes "\<not> cancel_while_synthesizing e"
    and "synthesis e = Resolves (Some d)" and "d \<noteq> []" and "createWavUrl d 24000 = Inr url"
  shows "synthesize e c calls t =
     (finally_generation (c\<lparr>audioUrl := Some url, history := new_item e c t url # history c\<rparr>),
      calls @ [Synthesize t (voice_id (selectedVoice c))]
        @ (if user_credits (user c) \<noteq> PosInf then [Deduct (length t)] else []))"
  using assms by (cases d) (simp_all add: synthesize_def settled_def Let_def)

lemma synthesize_decode_fails:
  assumes "\<not> cancel_while_synthesizing e"
    and "synthesis e = Resolves (Some d)" and "d \<noteq> []" and "createWavUrl d 24000 = Inl err"
  shows "synthesize e c calls t =
     (finally_generation (catch_generation err c),
      calls @ [Synthesize t (voice_id (selectedVoice c))]
        @ (if user_credits (user c) \<noteq> PosInf then [Deduct (length t)] else []))"
  using assms by (cases d) (simp_all add: synthesize_def settled_def Let_def)

text \<open>
  A run whose synthesis call gives no audio data (it rejects or it resolves without
  data), a run whose synthesis call is cancelled, and every run that stops before that
  call, issues no deduction, adds no history item, sets no audio, and leaves the table of
  the server as it was.
\<close>

lemma run_without_data:
  assumes "cancel_while_synthesizing e \<or> (\<forall>d ds. synthesis e \<noteq> Resolves (Some (d # ds)))"
  shows "(\<forall>n. Deduct n \<notin> set (snd (generateSpeech e c))) \<and>
         history (fst (generateSpeech e c)) = history c \<and>
         audioUrl (fst (generateSpeech e c)) = audioUrl c \<and>
         run verify req e (usersDb, c) =
           ((usersDb, fst (generateSpeech e c)), snd (generateSpeech e c))"
proof (cases "before_synthesis e c")
  case (Inl stopped)
  obtain c' calls where s: "stopped = (c', calls)" by (cases stopped)
  have f: "history c' = history c \<and> audioUrl c' = audioUrl c \<and> list_all outside_only calls"
    using before_synthesis_stopped [of e c c' calls] Inl s by simp
  have g: "generateSpeech e c = (c', calls)"
    using generateSpeech_stopped [of e c c' calls] Inl s by simp
  show ?thesis
    using f not_outside_only_Deduct [of calls]
    by (simp add: g run_def settle_outside_only)
next
  case (Inr goes)
  obtain c1 pre t where g: "goes = (c1, pre, t)" by (cases goes)
  let ?c2 = "c1\<lparr>isGenerating := True, loadingStatus := Some ''Generating AI voice...'',
                 error := None, abortController := Some ()\<rparr>"
  have b: "before_synthesis e c = Inr (c1, pre, t)" using Inr g by simp
  have facts: "history c1 = history c" "audioUrl c1 = audioUrl c" "list_all outside_only pre"
    using before_synthesis_goes_on [OF b] by simp_all
  have gs: "generateSpeech e c = synthesize e ?c2 pre t"
    using generateSpeech_goes_on [OF b] .
  have calls: "snd (generateSpeech e c) = pre @ [Synthesize t (voice_id (selectedVoice ?c2))]"
    using synthesize_without_data [OF assms, of ?c2 pre t] gs by simp
  have st: "history (fst (generateSpeech e c)) = history c \<and>
            audioUrl (fst (generateSpeech e c)) = audioUrl c"
    using synthesize_without_data_state [OF assms, of ?c2 pre t] gs facts by simp
  have nd: "\<forall>n. Deduct n \<notin> set (snd (generateSpeech e c))"
    using calls not_outside_only_Deduct [OF facts(3)] by simp
  have r: "run verify req e (usersDb, c) =
           ((usersDb, fst (generateSpeech e c)), snd (generateSpeech e c))"
    using settle_no_deduct [OF facts(3), of verify req usersDb "fst (generateSpeech e c)" t
        "voice_id (selectedVoice ?c2)"] calls
    by (simp add: run_def case_prod_beta)
  from nd st r show ?thesis by blast
qed

lemma cancel_flag_without_controller:
  assumes "abortController c = None"
  shows "generateSpeech (e\<lparr>cancel_while_transcribing := True\<rparr>) c =
         generateSpeech (e\<lparr>cancel_while_transcribing := False\<rparr>) c"
proof -
  have r: "resolve_text (e\<lparr>cancel_while_transcribing := True\<rparr>) c =
           resolve_text (e\<lparr>cancel_while_transcribing := False\<rparr>) c"
    using transcribing_without_controller [OF assms, of e]
    by (simp add: resolve_text_def Let_def split: option.splits sum.splits)
  have b: "before_synthesis (e\<lparr>cancel_while_transcribing := True\<rparr>) c =
           before_synthesis (e\<lparr>cancel_while_transcribing := False\<rparr>) c"
    by (simp add: before_synthesis_def r split: client_user.splits)
  have s: "\<And>c1 calls t. synthesize (e\<lparr>cancel_while_transcribing := True\<rparr>) c1 calls t =
           synthesize (e\<lparr>cancel_while_transcribing := False\<rparr>) c1 calls t"
    by (simp add: synthesize_def settled_def new_item_def Let_def
        split: synthesis_outcome.splits option.splits list.splits sum.splits prod.splits)
  show ?thesis
    by (simp add: generateSpeech_def b s split: sum.splits prod.splits)
qed

text \<open>
  What comes before the synthesis call does not depend on how that call ends, nor on a
  cancel during it.
\<close>

lemma before_synthesis_independent:
  "before_synthesis (e\<lparr>synthesis := answer\<rparr>) c = before_synthesis e c"
proof -
  have r: "resolve_text (e\<lparr>synthesis := answer\<rparr>) c = resolve_text e c"
    by (simp add: resolve_text_def transcribing_def Let_def split: option.splits sum.splits)
  show ?thesis
    by (simp add: before_synthesis_def r split: client_user.splits)
qed

text \<open>
  A run that has made its synthesis call and is cancelled before the call settles:
  \<^verbatim>\<open>handleCancel\<close> finds the controller of line 518 and aborts it, the race rejects, and
  the answer of the call is not looked at. The \<^verbatim>\<open>catch\<close> of line 587 does not recognise
  the rejection (its name is \<^verbatim>\<open>Error\<close>, and its message \<^verbatim>\<open>AbortError\<close> does not contain
  \<^verbatim>\<open>abort\<close> in lower case), so the run ends through \<^verbatim>\<open>setError\<close> with that message.
\<close>

lemma cancelled_run:
  assumes "before_synthesis e c = Inr (c1, calls, t)" and "cancel_while_synthesizing e"
  shows "generateSpeech e c =
     (c1\<lparr>isGenerating := False, loadingStatus := None,
         error := Some (Error_message ''AbortError''), abortController := None\<rparr>,
      calls @ [Synthesize t (voice_id (selectedVoice c1))])"
  using generateSpeech_goes_on [OF assms(1)]
    synthesize_cancelled [OF assms(2),
      of "c1\<lparr>isGenerating := True, loadingStatus := Some ''Generating AI voice...'',
             error := None, abortController := Some ()\<rparr>" calls t]
  by (simp add: abort_not_recognised finally_generation_def)

lemma signed_in_fields:
  "user (signed_in b) = Profile (account_a b)" "mode (signed_in b) = Tts"
  "uploadedAudio (signed_in b) = None" "targetLanguage (signed_in b) = ''Hindi''"
  "history (signed_in b) = []" "audioUrl (signed_in b) = None"
  "abortController (signed_in b) = None" "selectedVoice (signed_in b) = frank"
  "text_input (signed_in b) = []" "error (signed_in b) = None"
  by (simp_all add: signed_in_def initial_client_def)

lemma long_text_facts: "\<not> list_all js_whitespace long_text" "MAX_CHARS < length long_text"
  by (simp_all add: long_text_def list_all_iff js_whitespace_def MAX_CHARS_def)

lemma hi_facts: "\<not> list_all js_whitespace hi" "length hi = 2"
  by (simp_all add: hi_def js_whitespace_def)

lemma tts_run_delivers:
  assumes "user c \<noteq> Signed_out" and "mode c = Tts" and "\<not> list_all js_whitespace (text_input c)"
    and "length (text_input c) \<le> MAX_CHARS"
    and "\<not> (user_credits (user c) \<noteq> PosInf \<and>
             js_lt (user_credits (user c)) (Fin (real (length (text_input c)))))"
    and "\<not> cancel_while_synthesizing e"
    and "synthesis e = Resolves (Some d)" and "d \<noteq> []" and "createWavUrl d 24000 = Inr url"
  shows "snd (generateSpeech e c) =
       Synthesize (text_input c) (voice_id (selectedVoice c))
         # (if user_credits (user c) \<noteq> PosInf then [Deduct (length (text_input c))] else []) \<and>
     audioUrl (fst (generateSpeech e c)) = Some url \<and>
     error (fst (generateSpeech e c)) = None \<and>
     map item_audioUrl (history (fst (generateSpeech e c))) = url # map item_audioUrl (history c)"
  using generateSpeech_goes_on [OF tts_goes_on [OF assms(1-5), of e]]
    synthesize_delivers [OF assms(6-9)]
  by (simp add: finally_generation_def new_item_def)

lemma tts_run_decode_fails:
  assumes "user c \<noteq> Signed_out" and "mode c = Tts" and "\<not> list_all js_whitespace (text_input c)"
    and "length (text_input c) \<le> MAX_CHARS"
    and "\<not> (user_credits (user c) \<noteq> PosInf \<and>
             js_lt (user_credits (user c)) (Fin (real (length (text_input c)))))"
    and "\<not> cancel_while_synthesizing e"
    and "synthesis e = Resolves (Some d)" and "d \<noteq> []" and "createWavUrl d 24000 = Inl err"
  shows "generateSpeech e c =
     (finally_generation
        (catch_generation err
           (c\<lparr>isGenerating := True, loadingStatus := Some ''Generating AI voice...'',
               error := None, abortController := Some ()\<rparr>)),
      Synthesize (text_input c) (voice_id (selectedVoice c))
        # (if user_credits (user c) \<noteq> PosInf then [Deduct (length (text_input c))] else []))"
  using generateSpeech_goes_on [OF tts_goes_on [OF assms(1-5), of e]]
    synthesize_decode_fails [OF assms(6-9)]
  by simp

lemma upload_run_delivers:
  assumes "user c \<noteq> Signed_out" and "mode c \<noteq> Tts" and "uploadedAudio c = Some audio"
    and "transcription e = Inr (Some t)" and "\<not> list_all js_whitespace t"
    and "length t \<le> MAX_CHARS"
    and "\<not> (user_credits (user c) \<noteq> PosInf \<and> js_lt (user_credits (user c)) (Fin (real (length t))))"
    and "\<not> cancel_while_synthesizing e"
    and "synthesis e = Resolves (Some d)" and "d \<noteq> []" and "createWavUrl d 24000 = Inr url"
  shows "snd (generateSpeech e c) =
       [Transcribe (mode c) (targetLanguage c) audio, Synthesize t (voice_id (selectedVoice c))]
         @ (if user_credits (user c) \<noteq> PosInf then [Deduct (length t)] else []) \<and>
     audioUrl (fst (generateSpeech e c)) = Some url \<and>
     map item_audioUrl (history (fst (generateSpeech e c))) = url # map item_audioUrl (history c)"
  using generateSpeech_goes_on [OF upload_goes_on [OF assms(1-7)]]
    synthesize_delivers [OF assms(8-11)]
  by (simp add: finally_generation_def new_item_def transcribing_keeps)

lemma sample_container: "\<exists>url. createWavUrl ''AAEC/w=='' 24000 = Inr url"
  using createWavUrl_layout [OF atob_sample, of 24000] by blast

lemma atob_truncated: "atob ''UklGR'' = None"
  by (simp add: atob_def strip_padding_def ascii_whitespace_def)

lemma truncated_container: "createWavUrl ''UklGR'' 24000 = Inl InvalidCharacterError"
  by (simp add: createWavUrl_def atob_truncated)

lemma hi_run_calls:
  "snd (generateSpeech (outside heard cancelled (Resolves (Some ''AAEC/w=='')))
          ((signed_in 20000)\<lparr>text_input := hi\<rparr>))
     = [Synthesize hi ''Puck'', Deduct 2]"
proof -
  obtain url where url: "createWavUrl ''AAEC/w=='' 24000 = Inr url"
    using sample_container by blast
  show ?thesis
    using tts_run_delivers [of "(signed_in 20000)\<lparr>text_input := hi\<rparr>"
        "outside heard cancelled (Resolves (Some ''AAEC/w==''))" "''AAEC/w==''" url] url hi_facts
    by (simp add: signed_in_fields outside_def MAX_CHARS_def account_a_def frank_def)
qed

lemma hi_run_cancelled:
  "generateSpeech ((outside heard cancelled spoken)\<lparr>cancel_while_synthesizing := True\<rparr>)
       ((signed_in 20000)\<lparr>text_input := hi\<rparr>)
     = ((signed_in 20000)\<lparr>text_input := hi, isGenerating := False, loadingStatus := None,
          error := Some (Error_message ''AbortError''), abortController := None\<rparr>,
        [Synthesize hi ''Puck''])"
proof -
  have b: "before_synthesis ((outside heard cancelled spoken)\<lparr>cancel_while_synthesizing := True\<rparr>)
             ((signed_in 20000)\<lparr>text_input := hi\<rparr>)
           = Inr ((signed_in 20000)\<lparr>text_input := hi\<rparr>, [], hi)"
    using tts_goes_on [of "(signed_in 20000)\<lparr>text_input := hi\<rparr>"
        "(outside heard cancelled spoken)\<lparr>cancel_while_synthesizing := True\<rparr>"] hi_facts
    by (simp add: signed_in_fields MAX_CHARS_def account_a_def)
  show ?thesis
    using cancelled_run [OF b] by (simp add: signed_in_fields frank_def)
qed

section \<open>An empty transcription\<close>

text \<open>
  Claim C8. A signed-in user runs the voice changer or the dubbing with an uploaded clip,
  and the call that transcribes or translates answers with no text, the empty string or
  white space only. Then that call is the only call of the run: no synthesis call and no
  deduction request follow. The error shown is \<^verbatim>\<open>Failed to process audio file. Could not
  extract speech from audio.\<close>, no audio is set, no history item is added, and the table
  of the server is as before.
\<close>

theorem empty_transcription_stops_run:
  assumes "user c \<noteq> Signed_out" and "mode c \<noteq> Tts" and "uploadedAudio c = Some audio"
    and "transcription e = Inr t"
    and "list_all js_whitespace (case t of None \<Rightarrow> [] | Some s \<Rightarrow> s)"
  shows "snd (generateSpeech e c) = [Transcribe (mode c) (targetLanguage c) audio] \<and>
         error (fst (generateSpeech e c)) =
           Some (Process_audio_failed (Some ''Could not extract speech from audio.'')) \<and>
         history (fst (generateSpeech e c)) = history c \<and>
         audioUrl (fst (generateSpeech e c)) = audioUrl c \<and>
         run verify req e (usersDb, c) =
           ((usersDb, fst (generateSpeech e c)), [Transcribe (mode c) (targetLanguage c) audio])"
proof -
  have g: "generateSpeech e c =
     ((transcribing e c)\<lparr>error := Some (Process_audio_failed
                                      (Some ''Could not extract speech from audio.'')),
            isGenerating := False, loadingStatus := None\<rparr>,
      [Transcribe (mode c) (targetLanguage c) audio])"
    using generateSpeech_stopped [OF upload_not_heard [OF assms]] .
  show ?thesis
    by (simp add: g run_def transcribing_keeps)
qed

text \<open>A translation that answers a space and a line feed.\<close>

theorem empty_transcription_stops_run_witness:
  "snd (generateSpeech (outside (Inr (Some [32, 10])) False (Resolves (Some ''AAEC/w=='')))
          ((signed_in 20000)\<lparr>mode := Dubbing, uploadedAudio := Some clip\<rparr>))
     = [Transcribe Dubbing ''Hindi'' clip] \<and>
   error (fst (generateSpeech (outside (Inr (Some [32, 10])) False (Resolves (Some ''AAEC/w=='')))
          ((signed_in 20000)\<lparr>mode := Dubbing, uploadedAudio := Some clip\<rparr>)))
     = Some (Process_audio_failed (Some ''Could not extract speech from audio.'')) \<and>
   fst (fst (run verify_a preview_a
          (outside (Inr (Some [32, 10])) False (Resolves (Some ''AAEC/w=='')))
          ([''a@x.com'' \<mapsto> account_a 20000],
           (signed_in 20000)\<lparr>mode := Dubbing, uploadedAudio := Some clip\<rparr>)))
     = [''a@x.com'' \<mapsto> account_a 20000]"
  using empty_transcription_stops_run
      [of "(signed_in 20000)\<lparr>mode := Dubbing, uploadedAudio := Some clip\<rparr>" clip
          "outside (Inr (Some [32, 10])) False (Resolves (Some ''AAEC/w==''))" "Some [32, 10]"
          verify_a preview_a "[''a@x.com'' \<mapsto> account_a 20000]"]
  by (simp add: signed_in_fields outside_def js_whitespace_def)

section \<open>A text over the limit\<close>

text \<open>
  Against claim C4 as it is written: in the dubbing mode the text that is over the limit
  is the answer of the translation call, so that call has been made when the limit is
  tested. Here the translation has 20001 letters: the run ends with the error
  \<^verbatim>\<open>Text exceeds the 20000 character limit.\<close>, and its calls are the translation call.
\<close>

theorem long_translation_reaches_model:
  "snd (generateSpeech (outside (Inr (Some long_text)) False (Resolves None))
          ((signed_in 20000)\<lparr>mode := Dubbing, uploadedAudio := Some clip\<rparr>))
     = [Transcribe Dubbing ''Hindi'' clip] \<and>
   error (fst (generateSpeech (outside (Inr (Some long_text)) False (Resolves None))
          ((signed_in 20000)\<lparr>mode := Dubbing, uploadedAudio := Some clip\<rparr>)))
     = Some (Text_exceeds_limit 20000)"
  using generateSpeech_stopped [OF upload_too_long
      [of "(signed_in 20000)\<lparr>mode := Dubbing, uploadedAudio := Some clip\<rparr>" clip
          "outside (Inr (Some long_text)) False (Resolves None)" long_text]]
    long_text_facts
  by (simp add: signed_in_fields outside_def MAX_CHARS_def)

text \<open>
  Claim C4, amended. The user is signed in and the text to be spoken has more than 20000
  code units and is not white space only. In the text-to-speech mode the run makes no
  call at all: it sets the error \<^verbatim>\<open>Text exceeds the 20000 character limit.\<close>, clears the
  loading state and changes nothing else. In the modes with an upload the text is the
  answer of the call that transcribes or translates: that one call has been made, no
  synthesis call and no deduction request follow, the same error is set, and neither
  the audio nor the history changes.
\<close>

theorem text_too_long_stops_before_synthesis:
  assumes "user c \<noteq> Signed_out"
  shows "(mode c = Tts \<and> \<not> list_all js_whitespace (text_input c) \<and>
          MAX_CHARS < length (text_input c) \<longrightarrow>
            generateSpeech e c =
              (c\<lparr>error := Some (Text_exceeds_limit 20000), isGenerating := False,
                  loadingStatus := None\<rparr>, [])) \<and>
         (mode c \<noteq> Tts \<and> uploadedAudio c = Some audio \<and> transcription e = Inr (Some t) \<and>
          \<not> list_all js_whitespace t \<and> MAX_CHARS < length t \<longrightarrow>
            snd (generateSpeech e c) = [Transcribe (mode c) (targetLanguage c) audio] \<and>
            error (fst (generateSpeech e c)) = Some (Text_exceeds_limit 20000) \<and>
            history (fst (generateSpeech e c)) = history c \<and>
            audioUrl (fst (generateSpeech e c)) = audioUrl c)"
proof (intro conjI impI)
  assume a: "mode c = Tts \<and> \<not> list_all js_whitespace (text_input c) \<and>
          MAX_CHARS < length (text_input c)"
  show "generateSpeech e c =
      (c\<lparr>error := Some (Text_exceeds_limit 20000), isGenerating := False,
          loadingStatus := None\<rparr>, [])"
    using generateSpeech_stopped [OF tts_too_long [of c e]] assms a
    by (simp add: MAX_CHARS_def)
next
  assume a: "mode c \<noteq> Tts \<and> uploadedAudio c = Some audio \<and> transcription e = Inr (Some t) \<and>
          \<not> list_all js_whitespace t \<and> MAX_CHARS < length t"
  then have g: "generateSpeech e c =
     ((transcribing e c)\<lparr>text_input := t, error := Some (Text_exceeds_limit MAX_CHARS),
            isGenerating := False, loadingStatus := None\<rparr>,
          [Transcribe (mode c) (targetLanguage c) audio])"
    using generateSpeech_stopped [OF upload_too_long [of c audio e t]] assms by simp
  show "snd (generateSpeech e c) = [Transcribe (mode c) (targetLanguage c) audio]"
    by (simp add: g)
  show "error (fst (generateSpeech e c)) = Some (Text_exceeds_limit 20000)"
    by (simp add: g MAX_CHARS_def)
  show "history (fst (generateSpeech e c)) = history c"
    by (simp add: g transcribing_keeps)
  show "audioUrl (fst (generateSpeech e c)) = audioUrl c"
    by (simp add: g transcribing_keeps)
qed

text \<open>The text of 20001 letters, typed in, and as the answer of a transcription.\<close>

theorem text_too_long_stops_before_synthesis_witness:
  "generateSpeech (outside (Inr None) False (Resolves None))
       ((signed_in 20000)\<lparr>text_input := long_text\<rparr>)
     = ((signed_in 20000)\<lparr>text_input := long_text, error := Some (Text_exceeds_limit 20000),
          isGenerating := False, loadingStatus := None\<rparr>, []) \<and>
   snd (generateSpeech (outside (Inr (Some long_text)) False (Resolves None))
          ((signed_in 20000)\<lparr>mode := Voice_changer, uploadedAudio := Some clip\<rparr>))
     = [Transcribe Voice_changer ''Hindi'' clip]"
  using text_too_long_stops_before_synthesis
      [of "(signed_in 20000)\<lparr>text_input := long_text\<rparr>"
          "outside (Inr None) False (Resolves None)" clip long_text]
    text_too_long_stops_before_synthesis
      [of "(signed_in 20000)\<lparr>mode := Voice_changer, uploadedAudio := Some clip\<rparr>"
          "outside (Inr (Some long_text)) False (Resolves None)" clip long_text]
    long_text_facts
  by (simp add: signed_in_fields outside_def)

section \<open>A deduction refused after the synthesis\<close>

text \<open>
  The test of line 506 is made on the client's own copy of the balance. A run whose copy
  is a number smaller than the length of the text stops there, before the synthesis:
  it makes no call, sets the error and opens the upgrade panel. So a deduction can only
  be refused after the synthesis when the copy of the client is not the balance of the
  server.
\<close>

lemma client_check_stops_run:
  assumes "user c \<noteq> Signed_out" and "mode c = Tts"
    and "\<not> list_all js_whitespace (text_input c)" and "length (text_input c) \<le> MAX_CHARS"
    and "user_credits (user c) \<noteq> PosInf"
    and "js_lt (user_credits (user c)) (Fin (real (length (text_input c))))"
  shows "generateSpeech e c =
     (c\<lparr>error := Some (Insufficient_credits (length (text_input c)) (user_credits (user c))),
        showMonetization := True, isGenerating := False, loadingStatus := None\<rparr>, [])"
  using assms
  by (cases "user c") (auto simp: generateSpeech_def before_synthesis_def trim_Nil_iff)


text \<open>
  Claim C3. The synthesis call of a run has answered with audio data that decodes, and
  the run has sent its deduction request, for \<open>n\<close> credits. The request reaches the
  server with the cookies of an account whose balance is a finite number less than \<open>n\<close>.
  Then \<open>n\<close> is the length of the text that was spoken, the server refuses and its table
  is unchanged, and the client has the audio all the same: the URL of the container is
  set and the new history item, which carries that URL, is at the head of the history.
  The client's \<^verbatim>\<open>user\<close> state is then the error body of the refusal.
\<close>

theorem refused_deduction_keeps_audio:
  assumes "synthesis e = Resolves (Some d)" and "atob d = Some bin"
    and "Deduct n \<in> set (snd (generateSpeech e c))"
    and "request_email verify req = Inr em" and "usersDb em = Some u"
    and "credits u = Fin b" and "b < real n"
  shows "\<exists>url item c'.
           createWavUrl d 24000 = Inr url \<and>
           run verify req e (usersDb, c) = ((usersDb, c'), snd (generateSpeech e c)) \<and>
           audioUrl c' = Some url \<and> history c' = item # history c \<and> item_audioUrl item = url \<and>
           user c' = Error_body ''Insufficient credits'' \<and>
           (\<exists>t v. Synthesize t v \<in> set (snd (generateSpeech e c)) \<and> n = length t)"
proof -
  obtain url where url: "createWavUrl d 24000 = Inr url"
    using createWavUrl_layout [OF assms(2), of 24000] by blast
  show ?thesis
  proof (cases "before_synthesis e c")
    case (Inl stopped)
    obtain c' calls where s: "stopped = (c', calls)" by (cases stopped)
    have "list_all outside_only calls"
      using before_synthesis_stopped [of e c c' calls] Inl s by simp
    moreover have "generateSpeech e c = (c', calls)"
      using generateSpeech_stopped [of e c c' calls] Inl s by simp
    ultimately show ?thesis using assms(3) not_outside_only_Deduct by auto
  next
    case (Inr goes)
    obtain c1 pre t where g: "goes = (c1, pre, t)" by (cases goes)
    let ?c2 = "c1\<lparr>isGenerating := True, loadingStatus := Some ''Generating AI voice...'',
                   error := None, abortController := Some ()\<rparr>"
    have b: "before_synthesis e c = Inr (c1, pre, t)" using Inr g by simp
    have facts: "history c1 = history c" "list_all outside_only pre"
      using before_synthesis_goes_on [OF b] by simp_all
    have gs: "generateSpeech e c = synthesize e ?c2 pre t"
      using generateSpeech_goes_on [OF b] .
    have d: "d \<noteq> []"
    proof
      assume "d = []"
      then have "snd (synthesize e ?c2 pre t) = pre @ [Synthesize t (voice_id (selectedVoice ?c2))]"
        using synthesize_without_data [of e ?c2 pre t] assms(1) by simp
      then show False
        using assms(3) gs not_outside_only_Deduct [OF facts(2), of n] by simp
    qed
    have nc: "\<not> cancel_while_synthesizing e"
    proof
      assume "cancel_while_synthesizing e"
      then have "snd (synthesize e ?c2 pre t) = pre @ [Synthesize t (voice_id (selectedVoice ?c2))]"
        using synthesize_without_data [of e ?c2 pre t] by simp
      then show False
        using assms(3) gs not_outside_only_Deduct [OF facts(2), of n] by simp
    qed
    have syn: "synthesize e ?c2 pre t =
       (finally_generation (?c2\<lparr>audioUrl := Some url, history := new_item e ?c2 t url # history ?c2\<rparr>),
        pre @ [Synthesize t (voice_id (selectedVoice ?c2))]
          @ (if user_credits (user ?c2) \<noteq> PosInf then [Deduct (length t)] else []))"
      using synthesize_delivers [OF nc assms(1) d url] .
    have metered: "user_credits (user ?c2) \<noteq> PosInf" and n: "n = length t"
      using assms(3) gs syn not_outside_only_Deduct [OF facts(2), of n]
      by (auto split: if_splits)
    let ?c3 = "finally_generation (?c2\<lparr>audioUrl := Some url,
                 history := new_item e ?c2 t url # history ?c2\<rparr>)"
    have calls: "snd (generateSpeech e c) = pre @ [Synthesize t (voice_id (selectedVoice ?c2))] @ [Deduct n]"
      and c3: "fst (generateSpeech e c) = ?c3"
      using gs syn metered n by simp_all
    have refused: "post_deduct verify usersDb req (Fin (real n)) =
        (usersDb, Reply_error 400 ''Insufficient credits'')"
      using assms(4-7) by (simp add: post_deduct_def lookup_user_def)
    let ?c4 = "?c3\<lparr>user := Error_body ''Insufficient credits''\<rparr>"
    let ?item = "new_item e ?c2 t url"
    have r: "run verify req e (usersDb, c) = ((usersDb, ?c4), snd (generateSpeech e c))"
      using calls c3 settle_deduct_last [OF facts(2), of verify req usersDb ?c3 t
          "voice_id (selectedVoice ?c2)" n] refused
      by (simp add: run_def case_prod_beta setUser_def)
    have a: "audioUrl ?c4 = Some url"
      by (simp add: finally_generation_def)
    have h: "history ?c4 = ?item # history c"
      using facts(1) by (simp add: finally_generation_def)
    have i: "item_audioUrl ?item = url"
      by (simp add: new_item_def)
    have u: "user ?c4 = Error_body ''Insufficient credits''"
      by simp
    have "Synthesize t (voice_id (selectedVoice ?c2)) \<in> set (snd (generateSpeech e c))"
      using calls by simp
    then have last: "\<exists>t v. Synthesize t v \<in> set (snd (generateSpeech e c)) \<and> n = length t"
      using n by blast
    show ?thesis
      by (rule exI [of _ url], rule exI [of _ ?item], rule exI [of _ ?c4])
        (use url r a h i u last in blast)
  qed
qed

text \<open>
  The client still shows 20000 credits and speaks \<^verbatim>\<open>hi\<close>; on the server the balance of
  the account is 1. The request for 2 credits is refused, the balance stays 1, and the
  audio and its history item are there.
\<close>

theorem refused_deduction_keeps_audio_witness:
  "snd (run verify_a preview_a (outside (Inr None) False (Resolves (Some ''AAEC/w=='')))
          ([''a@x.com'' \<mapsto> account_a 1], (signed_in 20000)\<lparr>text_input := hi\<rparr>))
     = [Synthesize hi ''Puck'', Deduct 2] \<and>
   fst (fst (run verify_a preview_a (outside (Inr None) False (Resolves (Some ''AAEC/w=='')))
          ([''a@x.com'' \<mapsto> account_a 1], (signed_in 20000)\<lparr>text_input := hi\<rparr>)))
     = [''a@x.com'' \<mapsto> account_a 1] \<and>
   (\<exists>url. audioUrl (snd (fst (run verify_a preview_a
               (outside (Inr None) False (Resolves (Some ''AAEC/w=='')))
               ([''a@x.com'' \<mapsto> account_a 1], (signed_in 20000)\<lparr>text_input := hi\<rparr>))))
            = Some url \<and>
          map item_audioUrl (history (snd (fst (run verify_a preview_a
               (outside (Inr None) False (Resolves (Some ''AAEC/w=='')))
               ([''a@x.com'' \<mapsto> account_a 1], (signed_in 20000)\<lparr>text_input := hi\<rparr>)))))
            = [url])"
  using refused_deduction_keeps_audio
      [of "outside (Inr None) False (Resolves (Some ''AAEC/w==''))" "''AAEC/w==''"
          "[0, 1, 2, 255]" 2 "(signed_in 20000)\<lparr>text_input := hi\<rparr>" verify_a preview_a
          "''a@x.com''" "[''a@x.com'' \<mapsto> account_a 1]" "account_a 1" 1]
    hi_run_calls [of "Inr None" False] atob_sample
  by (auto simp: outside_def request_email_preview_a account_a_def signed_in_fields)

section \<open>Cancelling\<close>

text \<open>
  Against claim C5 as it is written: the user presses cancel while the translation call
  of a dubbing run is outstanding. The run goes on: after the translation call it makes
  the synthesis call, sends the deduction request and sets the audio.
\<close>

theorem cancel_during_translation_ignored:
  "cancel_while_transcribing (outside (Inr (Some hi)) True (Resolves (Some ''AAEC/w==''))) \<and>
   snd (generateSpeech (outside (Inr (Some hi)) True (Resolves (Some ''AAEC/w=='')))
          ((signed_in 20000)\<lparr>mode := Dubbing, uploadedAudio := Some clip\<rparr>))
     = [Transcribe Dubbing ''Hindi'' clip, Synthesize hi ''Puck'', Deduct 2] \<and>
   (\<exists>url. audioUrl (fst (generateSpeech
               (outside (Inr (Some hi)) True (Resolves (Some ''AAEC/w=='')))
               ((signed_in 20000)\<lparr>mode := Dubbing, uploadedAudio := Some clip\<rparr>)))
            = Some url)"
proof -
  obtain url where url: "createWavUrl ''AAEC/w=='' 24000 = Inr url"
    using sample_container by blast
  show ?thesis
    using upload_run_delivers [of "(signed_in 20000)\<lparr>mode := Dubbing, uploadedAudio := Some clip\<rparr>"
        clip "outside (Inr (Some hi)) True (Resolves (Some ''AAEC/w==''))" hi "''AAEC/w==''" url]
      url hi_facts
    by (simp add: signed_in_fields outside_def MAX_CHARS_def account_a_def frank_def)
qed

text \<open>
  Claim C5, amended. The cancel button acts on the abort controller, and a run creates
  its controller only when it starts the synthesis call. While the call that
  transcribes or translates is outstanding there is none (no other run being in
  flight), so pressing cancel then changes nothing: the run is, call for call and state
  for state, the run without the cancel. Pressing cancel while the synthesis call is
  outstanding ends the run there, whatever that call would have answered: the run and
  its calls are the same for every answer, no audio is set, no history item is added,
  no deduction request is sent, the table of the server is unchanged, and the run is
  over, with the loading state cleared and the controller dropped.
\<close>

theorem cancel_pre_empts_synthesis_only:
  "(abortController c = None \<longrightarrow>
      generateSpeech (e\<lparr>cancel_while_transcribing := True\<rparr>) c =
      generateSpeech (e\<lparr>cancel_while_transcribing := False\<rparr>) c) \<and>
   (cancel_while_synthesizing e \<longrightarrow>
      generateSpeech (e\<lparr>synthesis := answer\<rparr>) c = generateSpeech e c \<and>
      audioUrl (fst (generateSpeech e c)) = audioUrl c \<and>
      history (fst (generateSpeech e c)) = history c \<and>
      (\<forall>n. Deduct n \<notin> set (snd (generateSpeech e c))) \<and>
      run verify req e (usersDb, c) =
        ((usersDb, fst (generateSpeech e c)), snd (generateSpeech e c)) \<and>
      ((\<exists>t v. Synthesize t v \<in> set (snd (generateSpeech e c))) \<longrightarrow>
         \<not> isGenerating (fst (generateSpeech e c)) \<and>
         loadingStatus (fst (generateSpeech e c)) = None \<and>
         abortController (fst (generateSpeech e c)) = None))"
proof (intro conjI impI)
  assume "abortController c = None"
  then show "generateSpeech (e\<lparr>cancel_while_transcribing := True\<rparr>) c =
      generateSpeech (e\<lparr>cancel_while_transcribing := False\<rparr>) c"
    by (rule cancel_flag_without_controller)
next
  assume cancel: "cancel_while_synthesizing e"
  have same: "generateSpeech (e\<lparr>synthesis := answer\<rparr>) c = generateSpeech e c"
    and over: "(\<exists>t v. Synthesize t v \<in> set (snd (generateSpeech e c))) \<longrightarrow>
         \<not> isGenerating (fst (generateSpeech e c)) \<and>
         loadingStatus (fst (generateSpeech e c)) = None \<and>
         abortController (fst (generateSpeech e c)) = None"
  proof -
    show "generateSpeech (e\<lparr>synthesis := answer\<rparr>) c = generateSpeech e c"
    proof (cases "before_synthesis e c")
      case (Inl stopped)
      then show ?thesis
        by (simp add: generateSpeech_def before_synthesis_independent)
    next
      case (Inr goes)
      obtain c1 pre t where b: "before_synthesis e c = Inr (c1, pre, t)"
        using Inr by (cases goes) simp
      have b': "before_synthesis (e\<lparr>synthesis := answer\<rparr>) c = Inr (c1, pre, t)"
        using b by (simp add: before_synthesis_independent)
      have cancel': "cancel_while_synthesizing (e\<lparr>synthesis := answer\<rparr>)"
        using cancel by simp
      show ?thesis
        by (simp only: cancelled_run [OF b cancel] cancelled_run [OF b' cancel'])
    qed
    show "(\<exists>t v. Synthesize t v \<in> set (snd (generateSpeech e c))) \<longrightarrow>
         \<not> isGenerating (fst (generateSpeech e c)) \<and>
         loadingStatus (fst (generateSpeech e c)) = None \<and>
         abortController (fst (generateSpeech e c)) = None"
    proof (cases "before_synthesis e c")
      case (Inl stopped)
      obtain c' calls where s: "before_synthesis e c = Inl (c', calls)"
        using Inl by (cases stopped) simp
      have "list_all outside_only calls"
        using before_synthesis_stopped [OF s] by simp
      then show ?thesis
        using not_outside_only_Synthesize [of calls]
        by (simp add: generateSpeech_stopped [OF s])
    next
      case (Inr goes)
      obtain c1 pre t where b: "before_synthesis e c = Inr (c1, pre, t)"
        using Inr by (cases goes) simp
      show ?thesis
        by (simp add: cancelled_run [OF b cancel])
    qed
  qed
  note none = run_without_data [of e c verify req usersDb]
  show "generateSpeech (e\<lparr>synthesis := answer\<rparr>) c = generateSpeech e c"
    by (rule same)
  show "audioUrl (fst (generateSpeech e c)) = audioUrl c"
    using none cancel by simp
  show "history (fst (generateSpeech e c)) = history c"
    using none cancel by simp
  show "\<forall>n. Deduct n \<notin> set (snd (generateSpeech e c))"
    using none cancel by simp
  show "run verify req e (usersDb, c) =
        ((usersDb, fst (generateSpeech e c)), snd (generateSpeech e c))"
    using none cancel by simp
  assume "\<exists>t v. Synthesize t v \<in> set (snd (generateSpeech e c))"
  then show "\<not> isGenerating (fst (generateSpeech e c))"
    "loadingStatus (fst (generateSpeech e c)) = None"
    "abortController (fst (generateSpeech e c)) = None"
    using over by simp_all
qed

text \<open>
  A dubbing run with and without a cancel during the translation; and a text-to-speech
  run of \<^verbatim>\<open>hi\<close> whose synthesis call would answer with audio: cancelled during that
  call, it makes the synthesis call and nothing else; not cancelled, it goes on to the
  deduction request.
\<close>

theorem cancel_pre_empts_synthesis_only_witness:
  "generateSpeech (outside (Inr (Some hi)) True (Resolves (Some ''AAEC/w=='')))
       ((signed_in 20000)\<lparr>mode := Dubbing, uploadedAudio := Some clip\<rparr>) =
   generateSpeech (outside (Inr (Some hi)) False (Resolves (Some ''AAEC/w=='')))
       ((signed_in 20000)\<lparr>mode := Dubbing, uploadedAudio := Some clip\<rparr>) \<and>
   cancel_while_synthesizing
     ((outside (Inr None) False (Resolves (Some ''AAEC/w=='')))\<lparr>cancel_while_synthesizing := True\<rparr>) \<and>
   snd (generateSpeech
       ((outside (Inr None) False (Resolves (Some ''AAEC/w=='')))\<lparr>cancel_while_synthesizing := True\<rparr>)
       ((signed_in 20000)\<lparr>text_input := hi\<rparr>)) = [Synthesize hi ''Puck''] \<and>
   audioUrl (fst (generateSpeech
       ((outside (Inr None) False (Resolves (Some ''AAEC/w=='')))\<lparr>cancel_while_synthesizing := True\<rparr>)
       ((signed_in 20000)\<lparr>text_input := hi\<rparr>))) = None \<and>
   history (fst (generateSpeech
       ((outside (Inr None) False (Resolves (Some ''AAEC/w=='')))\<lparr>cancel_while_synthesizing := True\<rparr>)
       ((signed_in 20000)\<lparr>text_input := hi\<rparr>))) = [] \<and>
   \<not> isGenerating (fst (generateSpeech
       ((outside (Inr None) False (Resolves (Some ''AAEC/w=='')))\<lparr>cancel_while_synthesizing := True\<rparr>)
       ((signed_in 20000)\<lparr>text_input := hi\<rparr>))) \<and>
   fst (fst (run verify_a preview_a
       ((outside (Inr None) False (Resolves (Some ''AAEC/w=='')))\<lparr>cancel_while_synthesizing := True\<rparr>)
       ([''a@x.com'' \<mapsto> account_a 20000], (signed_in 20000)\<lparr>text_input := hi\<rparr>)))
     = [''a@x.com'' \<mapsto> account_a 20000] \<and>
   snd (generateSpeech (outside (Inr None) False (Resolves (Some ''AAEC/w=='')))
       ((signed_in 20000)\<lparr>text_input := hi\<rparr>)) = [Synthesize hi ''Puck'', Deduct 2]"
proof -
  let ?e = "(outside (Inr None) False (Resolves (Some ''AAEC/w=='')))\<lparr>cancel_while_synthesizing := True\<rparr>"
  let ?c = "(signed_in 20000)\<lparr>text_input := hi\<rparr>"
  have calls: "snd (generateSpeech ?e ?c) = [Synthesize hi ''Puck'']"
    by (simp add: hi_run_cancelled)
  have made: "\<exists>t v. Synthesize t v \<in> set (snd (generateSpeech ?e ?c))"
    by (simp add: calls)
  have cancel: "cancel_while_synthesizing ?e" by simp
  show ?thesis
    using cancel_pre_empts_synthesis_only
        [of "(signed_in 20000)\<lparr>mode := Dubbing, uploadedAudio := Some clip\<rparr>"
            "outside (Inr (Some hi)) True (Resolves (Some ''AAEC/w==''))"
            "Resolves None" verify_a preview_a "[''a@x.com'' \<mapsto> account_a 20000]"]
      cancel_pre_empts_synthesis_only
        [of ?c ?e "Resolves None" verify_a preview_a "[''a@x.com'' \<mapsto> account_a 20000]"]
      made cancel calls hi_run_calls [of "Inr None" False]
    by (simp add: outside_def signed_in_fields)
qed

section \<open>A run that fails after the deduction request\<close>

text \<open>
  Claim C7, at an input where the code departs from it. The synthesis call answers with
  data that is not base64 (here a string of five characters). The deduction request is
  sent before the data is decoded: \<^verbatim>\<open>createWavUrl\<close> then throws, the run ends with an
  error message and without audio or history item, and the server has taken 2 credits
  from the balance of 20000.
\<close>

theorem undecodable_audio_is_charged:
  "snd (run verify_a preview_a (outside (Inr None) False (Resolves (Some ''UklGR'')))
          ([''a@x.com'' \<mapsto> account_a 20000], (signed_in 20000)\<lparr>text_input := hi\<rparr>))
     = [Synthesize hi ''Puck'', Deduct 2] \<and>
   fst (fst (run verify_a preview_a (outside (Inr None) False (Resolves (Some ''UklGR'')))
          ([''a@x.com'' \<mapsto> account_a 20000], (signed_in 20000)\<lparr>text_input := hi\<rparr>)))
     = [''a@x.com'' \<mapsto> account_a 19998] \<and>
   error (snd (fst (run verify_a preview_a (outside (Inr None) False (Resolves (Some ''UklGR'')))
          ([''a@x.com'' \<mapsto> account_a 20000], (signed_in 20000)\<lparr>text_input := hi\<rparr>))))
     = Some (Error_message ''The string to be decoded is not correctly encoded.'') \<and>
   audioUrl (snd (fst (run verify_a preview_a (outside (Inr None) False (Resolves (Some ''UklGR'')))
          ([''a@x.com'' \<mapsto> account_a 20000], (signed_in 20000)\<lparr>text_input := hi\<rparr>))))
     = None \<and>
   history (snd (fst (run verify_a preview_a (outside (Inr None) False (Resolves (Some ''UklGR'')))
          ([''a@x.com'' \<mapsto> account_a 20000], (signed_in 20000)\<lparr>text_input := hi\<rparr>))))
     = []"
proof -
  have g: "generateSpeech (outside (Inr None) False (Resolves (Some ''UklGR'')))
             ((signed_in 20000)\<lparr>text_input := hi\<rparr>) =
     (finally_generation
        (catch_generation InvalidCharacterError
           ((signed_in 20000)\<lparr>text_input := hi, isGenerating := True,
               loadingStatus := Some ''Generating AI voice...'',
               error := None, abortController := Some ()\<rparr>)),
      [Synthesize hi ''Puck'', Deduct 2])"
    using tts_run_decode_fails [of "(signed_in 20000)\<lparr>text_input := hi\<rparr>"
        "outside (Inr None) False (Resolves (Some ''UklGR''))" "''UklGR''" InvalidCharacterError]
      truncated_container hi_facts
    by (simp add: signed_in_fields outside_def MAX_CHARS_def account_a_def frank_def)
  have c: "catch_generation InvalidCharacterError c =
     c\<lparr>error := Some (Error_message ''The string to be decoded is not correctly encoded.'')\<rparr>" for c
    by (simp add: catch_generation_def InvalidCharacterError_def)
  have p: "post_deduct verify_a [''a@x.com'' \<mapsto> account_a 20000] preview_a (Fin 2) =
     ([''a@x.com'' \<mapsto> account_a 19998], Reply_user (account_a 19998))"
    by (simp add: post_deduct_def lookup_user_def request_email_preview_a account_a_def
        round_double_numeral Let_def)
  show ?thesis
    by (simp add: run_def g c p finally_generation_def signed_in_fields setUser_def)
qed

end
